theory Spec2Isabelle
  imports Main "HOL-Library.Sublist"
begin

section \<open>Shared values\<close>

text \<open>
  Go's dynamically typed values (\<open>interface{}\<close>, \<open>any\<close>) as they come out of a JSON or
  YAML document: \<open>nil\<close>, booleans, numbers, strings, \<open>[]interface{}\<close> and
  \<open>map[string]interface{}\<close>. A Go map has unique keys; it is an association list here,
  read with \<open>map_of\<close>. No property below depends on the payload of a number.
\<close>

datatype json =
    JNull
  | JBool bool
  | JNumber int
  | JString string
  | JArray "json list"
  | JObject "(string \<times> json) list"

text \<open>
  The value handed to \<open>panic\<close>: a string, an \<open>error\<close> (shown by its text), or any other
  Go value.
\<close>

datatype panicValue = PanicString string | PanicError string | PanicOther

subsection \<open>The subset comparator (package shared)\<close>

text \<open>
  Modelled from the spec: \<open>shared.IsSubset\<close> is not among the source files. Section 4.1:
  two objects: every key of \<open>sub\<close> exists in \<open>full\<close> and its value is a subset of the
  value there; two arrays: every element of \<open>sub\<close> has an element of \<open>full\<close> it is a
  subset of; two scalars: equality; different types: false.
\<close>

fun IsSubset :: "json \<Rightarrow> json \<Rightarrow> bool"
  and subsetFields :: "(string \<times> json) list \<Rightarrow> (string \<times> json) list \<Rightarrow> bool"
  and subsetElems :: "json list \<Rightarrow> json list \<Rightarrow> bool"
  and subsetOfSome :: "json \<Rightarrow> json list \<Rightarrow> bool"
where
  "IsSubset (JObject sub) (JObject full) = subsetFields sub full"
| "IsSubset (JArray sub) (JArray full) = subsetElems sub full"
| "IsSubset JNull JNull = True"
| "IsSubset (JBool a) (JBool b) = (a = b)"
| "IsSubset (JNumber a) (JNumber b) = (a = b)"
| "IsSubset (JString a) (JString b) = (a = b)"
| "IsSubset _ _ = False"
| "subsetFields [] full = True"
| "subsetFields ((k, v) # rest) full =
     ((case map_of full k of None \<Rightarrow> False | Some w \<Rightarrow> IsSubset v w) \<and> subsetFields rest full)"
| "subsetElems [] full = True"
| "subsetElems (s # rest) full = (subsetOfSome s full \<and> subsetElems rest full)"
| "subsetOfSome s [] = False"
| "subsetOfSome s (f # fs) = (IsSubset s f \<or> subsetOfSome s fs)"

text \<open>
  Modelled from the spec: \<open>shared.StringCompare\<close> is not among the source files.
  Section 4.1: ASCII case-insensitive equality.
\<close>

definition asciiLower :: "char \<Rightarrow> char" where
  "asciiLower c =
     (let n = (of_char c :: nat) in if 65 \<le> n \<and> n \<le> 90 then char_of (n + 32) else c)"

definition StringCompare :: "string \<Rightarrow> string \<Rightarrow> bool" where
  "StringCompare a b = (map asciiLower a = map asciiLower b)"


section \<open>Static mock matcher (package staticMock)\<close>

text \<open>
  A request body is an \<open>io.ReadCloser\<close>: the bytes not yet read, and the error a read
  ends with, if any. \<open>io.ReadAll\<close> drains the reader.
\<close>

record Reader =
  unread :: string
  readError :: "string option"

definition NopCloser :: "string \<Rightarrow> Reader" where
  "NopCloser bytes = \<lparr>unread = bytes, readError = None\<rparr>"

definition ReadAll :: "Reader \<Rightarrow> (string + string) \<times> Reader" where
  "ReadAll r =
     (case readError r of
        None \<Rightarrow> (Inr (unread r), r\<lparr>unread := []\<rparr>)
      | Some e \<Rightarrow> (Inl e, r\<lparr>unread := []\<rparr>))"

text \<open>
  The fields of \<open>http.Request\<close> the matcher reads. \<open>Header\<close> and the parsed query
  (\<open>URL.Query()\<close>) are Go maps from a name to its values; indexing a missing name yields
  the empty slice, so they are total functions here.
\<close>

record Request =
  Host :: string
  Method :: string
  URL_Path :: string
  URL_Query :: "string \<Rightarrow> string list"
  Header :: "string \<Rightarrow> string list"
  Body :: Reader

text \<open>\<open>Header.Get\<close>: the first value of the name, or the empty string.\<close>

definition Header_Get :: "(string \<Rightarrow> string list) \<Rightarrow> string \<Rightarrow> string" where
  "Header_Get h k = (case h k of [] \<Rightarrow> [] | v # _ \<Rightarrow> v)"

text \<open>
  The selector of a mock definition, its fields prefixed with \<open>m\<close> to tell them from
  those of the request. \<open>Header\<close> and \<open>QueryParams\<close> are pointers to maps (\<open>None\<close> is
  the nil pointer); \<open>Body\<close> is an \<open>interface{}\<close>, \<open>JNull\<close> being nil.
\<close>

record StaticMockDefinitionRequest =
  mHost :: string
  mMethod :: string
  mUrlPath :: string
  mHeader :: "(string \<times> json) list option"
  mQueryParams :: "(string \<times> json) list option"
  mBody :: json

text \<open>
  \<open>getBodyFromHttpRequest\<close>: \<open>unmarshal\<close> stands for \<open>json.Unmarshal\<close>, the error text
  on the left. The body is put back before the bytes are decoded.
\<close>

definition getBodyFromHttpRequest ::
  "(string \<Rightarrow> string + json) \<Rightarrow> Request \<Rightarrow> panicValue + (json \<times> Request)" where
  "getBodyFromHttpRequest unmarshal request =
     (case ReadAll (Body request) of
        (Inl err, _) \<Rightarrow> Inl (PanicError err)
      | (Inr bodyBytes, _) \<Rightarrow>
          (let request' = request\<lparr>Body := NopCloser bodyBytes\<rparr> in
           if length bodyBytes = 0 then Inr (JNull, request')
           else (case unmarshal bodyBytes of
                   Inl err \<Rightarrow> Inl (PanicError err)
                 | Inr bodyJsonObj \<Rightarrow> Inr (bodyJsonObj, request'))))"

definition compareJsonBody ::
  "(string \<Rightarrow> string + json) \<Rightarrow> StaticMockDefinitionRequest \<Rightarrow> Request
     \<Rightarrow> panicValue + (bool \<times> Request)" where
  "compareJsonBody unmarshal mock request =
     (if Header_Get (Header request) ''Content-Type'' \<noteq> ''application/json''
      then Inr (False, request)
      else (case getBodyFromHttpRequest unmarshal request of
              Inl p \<Rightarrow> Inl p
            | Inr (incomingBody, request') \<Rightarrow> Inr (IsSubset (mBody mock) incomingBody, request')))"

definition transStrArrToInterfaceArr :: "string list \<Rightarrow> json" where
  "transStrArrToInterfaceArr strArr = JArray (map JString strArr)"

text \<open>
  One turn of the loop of \<open>compareHeaders\<close> and \<open>compareQueryParams\<close>: the type switch
  has a case for a string and one for an array, and no default. Go ranges over a map in
  no fixed order; \<open>found\<close> is a conjunction, so the order does not show.
\<close>

definition selectorStep :: "(string \<Rightarrow> string list) \<Rightarrow> bool \<Rightarrow> string \<times> json \<Rightarrow> bool" where
  "selectorStep incoming found kv =
     (case kv of (key, value) \<Rightarrow>
        (case value of
           JString v \<Rightarrow>
             found \<and> IsSubset (JArray [JString v]) (transStrArrToInterfaceArr (incoming key))
         | JArray _ \<Rightarrow> found \<and> IsSubset value (transStrArrToInterfaceArr (incoming key))
         | _ \<Rightarrow> found))"

definition compareHeaders :: "(string \<times> json) list \<Rightarrow> Request \<Rightarrow> bool" where
  "compareHeaders mockHeaders incoming = foldl (selectorStep (Header incoming)) True mockHeaders"

definition compareQueryParams :: "(string \<times> json) list \<Rightarrow> (string \<Rightarrow> string list) \<Rightarrow> bool" where
  "compareQueryParams mockQueryParams incomingQueries =
     foldl (selectorStep incomingQueries) True mockQueryParams"

definition compareBody ::
  "(string \<Rightarrow> string + json) \<Rightarrow> StaticMockDefinitionRequest \<Rightarrow> Request
     \<Rightarrow> panicValue + (bool \<times> Request)" where
  "compareBody unmarshal mock incoming =
     (case mBody mock of
        JString mb \<Rightarrow>
          (case ReadAll (Body incoming) of
             (Inl err, _) \<Rightarrow> Inl (PanicError err)
           | (Inr incomingBodyBytes, drained) \<Rightarrow>
               Inr (incomingBodyBytes = mb, incoming\<lparr>Body := drained\<rparr>))
      | JObject _ \<Rightarrow> compareJsonBody unmarshal mock incoming
      | JArray _ \<Rightarrow> compareJsonBody unmarshal mock incoming
      | _ \<Rightarrow> Inr (False, incoming))"

definition isRequestMatch ::
  "(string \<Rightarrow> string + json) \<Rightarrow> StaticMockDefinitionRequest \<Rightarrow> Request
     \<Rightarrow> panicValue + (bool \<times> Request)" where
  "isRequestMatch unmarshal mock incoming =
     (if mHost mock \<noteq> [] \<and> \<not> StringCompare (mHost mock) (Host incoming)
      then Inr (False, incoming)
      else if Method incoming \<noteq> mMethod mock then Inr (False, incoming)
      else if mUrlPath mock \<noteq> [] \<and> \<not> StringCompare (mUrlPath mock) (URL_Path incoming)
      then Inr (False, incoming)
      else if (case mHeader mock of None \<Rightarrow> False | Some h \<Rightarrow> \<not> compareHeaders h incoming)
      then Inr (False, incoming)
      else if (case mQueryParams mock of
                 None \<Rightarrow> False
               | Some q \<Rightarrow> \<not> compareQueryParams q (URL_Query incoming))
      then Inr (False, incoming)
      else if mBody mock \<noteq> JNull then compareBody unmarshal mock incoming
      else Inr (True, incoming))"

text \<open>The matcher's verdict: it returned, and returned true.\<close>

definition requestMatches ::
  "(string \<Rightarrow> string + json) \<Rightarrow> StaticMockDefinitionRequest \<Rightarrow> Request \<Rightarrow> bool" where
  "requestMatches unmarshal mock incoming =
     (case isRequestMatch unmarshal mock incoming of Inl _ \<Rightarrow> False | Inr (b, _) \<Rightarrow> b)"

text \<open>
  What one entry of a selector map asks of the incoming values, read off the type
  switch: a string or an array is compared, a value of any other type asks nothing.
\<close>

definition selectorHolds :: "(string \<Rightarrow> string list) \<Rightarrow> string \<times> json \<Rightarrow> bool" where
  "selectorHolds incoming kv =
     (case snd kv of
        JString v \<Rightarrow> IsSubset (JArray [JString v]) (JArray (map JString (incoming (fst kv))))
      | JArray a \<Rightarrow> IsSubset (JArray a) (JArray (map JString (incoming (fst kv))))
      | _ \<Rightarrow> True)"

definition bodyHolds ::
  "(string \<Rightarrow> string + json) \<Rightarrow> StaticMockDefinitionRequest \<Rightarrow> Request \<Rightarrow> bool" where
  "bodyHolds u m r =
     (mBody m = JNull \<or> (case compareBody u m r of Inl _ \<Rightarrow> False | Inr (b, _) \<Rightarrow> b))"

text \<open>Sample inputs.\<close>

definition noJson :: "string \<Rightarrow> string + json" where
  "noJson bytes = Inl ''invalid character''"

definition plainRequest :: Request where
  "plainRequest = \<lparr>Host = ''api.local'', Method = ''GET'', URL_Path = ''/pets'',
     URL_Query = (\<lambda>_. []), Header = (\<lambda>_. []), Body = NopCloser ''hello''\<rparr>"

definition numberHeaderMock :: StaticMockDefinitionRequest where
  "numberHeaderMock = \<lparr>mHost = [], mMethod = ''GET'', mUrlPath = [],
     mHeader = Some [(''X-Token'', JNumber 5)], mQueryParams = None, mBody = JNull\<rparr>"

definition objectQueryMock :: StaticMockDefinitionRequest where
  "objectQueryMock = \<lparr>mHost = [], mMethod = ''GET'', mUrlPath = [],
     mHeader = None, mQueryParams = Some [(''page'', JObject [(''n'', JNumber 1)])],
     mBody = JNull\<rparr>"

definition stringBodyMock :: StaticMockDefinitionRequest where
  "stringBodyMock = \<lparr>mHost = [], mMethod = ''GET'', mUrlPath = [],
     mHeader = None, mQueryParams = None, mBody = JString ''hello''\<rparr>"

definition petsMock :: StaticMockDefinitionRequest where
  "petsMock = \<lparr>mHost = ''API.local'', mMethod = ''GET'', mUrlPath = ''/Pets'',
     mHeader = Some [(''Accept'', JArray [JString ''application/json''])],
     mQueryParams = Some [(''limit'', JString ''10'')], mBody = JString ''hello''\<rparr>"

definition petsRequest :: Request where
  "petsRequest = \<lparr>Host = ''api.local'', Method = ''GET'', URL_Path = ''/pets'',
     URL_Query = (\<lambda>k. if k = ''limit'' then [''10''] else []),
     Header = (\<lambda>k. if k = ''Accept'' then [''text/html'', ''application/json''] else []),
     Body = NopCloser ''hello''\<rparr>"

section \<open>Validator adapter (package daemon, validate.go)\<close>

text \<open>
  \<open>errors.ValidationError\<close> comes from the validator library; the adapter reads its
  \<open>Message\<close> and asks \<open>IsPathMissingError\<close>, the answer to which is the field
  \<open>PathMissing\<close> here.
\<close>

record ValidationError =
  Message :: string
  PathMissing :: bool

definition IsPathMissingError :: "ValidationError \<Rightarrow> bool" where
  "IsPathMissingError v = PathMissing v"

record Response =
  StatusCode :: int
  respHeader :: "string \<Rightarrow> string list"
  respBody :: string

text \<open>\<open>model.Request\<close>: the request as the pipeline carries it, with its ID as a string.\<close>

record model_Request =
  Id :: string
  HttpRequest :: Request

record WiretapConfiguration =
  RedirectProtocol :: string
  RedirectHost :: string
  RedirectPort :: string

text \<open>
  Modelled from the spec: \<open>HttpTransaction\<close>, \<open>BuildResponse\<close> and
  \<open>BuildHttpTransaction\<close> are not among the source files. Section 3: a transaction is
  the record of one request, keyed by its ID: the original request, the rewritten
  request, the response if any, and the validation errors of the request and of the
  response (none when it is built).
\<close>

record HttpTransaction =
  tId :: string
  tOriginalRequest :: "Request option"
  tNewRequest :: "Request option"
  tResponse :: "Response option"
  RequestValidation :: "ValidationError list"
  ResponseValidation :: "ValidationError list"

record HttpTransactionConfig =
  OriginalRequest :: Request
  NewRequest :: Request
  ID :: string
  TransactionConfig :: WiretapConfiguration

definition BuildResponse :: "model_Request \<Rightarrow> Response \<Rightarrow> HttpTransaction" where
  "BuildResponse request response =
     \<lparr>tId = Id request, tOriginalRequest = None, tNewRequest = None,
      tResponse = Some response, RequestValidation = [], ResponseValidation = []\<rparr>"

definition BuildHttpTransaction :: "HttpTransactionConfig \<Rightarrow> HttpTransaction" where
  "BuildHttpTransaction build =
     \<lparr>tId = ID build, tOriginalRequest = Some (OriginalRequest build),
      tNewRequest = Some (NewRequest build), tResponse = None,
      RequestValidation = [], ResponseValidation = []\<rparr>"

text \<open>
  The transaction store takes any value (\<open>Put(key, value any, ...)\<close>); the two kinds of
  value this file puts there are a transaction and a \<open>model.Request\<close>.
\<close>

datatype storedValue = StoredTransaction HttpTransaction | StoredRequest model_Request

datatype broadcast =
    BroadcastResponse model_Request Response
  | BroadcastResponseValidationErrors model_Request Response "ValidationError list"
  | BroadcastRequest model_Request HttpTransaction
  | BroadcastRequestValidationErrors model_Request "ValidationError list" HttpTransaction

text \<open>
  The service: whether the OpenAPI document and its model are loaded, the validator (a
  call returns its errors or panics), the configuration, the transaction store, the
  batches sent on \<open>streamChan\<close> (oldest first), the events handed to the broadcast sink,
  and the streamer's settings.
\<close>

record WiretapService =
  document :: bool
  docModel :: bool
  ValidateHttpRequest :: "Request \<Rightarrow> panicValue + ValidationError list"
  ValidateHttpResponse :: "Request \<Rightarrow> Response \<Rightarrow> panicValue + ValidationError list"
  config :: WiretapConfiguration
  transactionStore :: "string \<rightharpoonup> storedValue"
  streamChan :: "ValidationError list list"
  broadcasts :: "broadcast list"
  stream :: bool
  streamViolations :: "ValidationError list"
  reportFile :: string

text \<open>
  The deferred function of both operations: a recovered panic value is asserted to be a
  string (\<open>r.(string)\<close>) and becomes one validation error appended to the named result,
  which is still nil when the body panicked. The assertion is unchecked: on any other
  value it panics itself, and that panic leaves the operation.
\<close>

definition recoverPanic ::
  "string \<Rightarrow> WiretapService \<Rightarrow> panicValue + (ValidationError list \<times> WiretapService)
     \<Rightarrow> panicValue + (ValidationError list \<times> WiretapService)" where
  "recoverPanic label ws outcome =
     (case outcome of
        Inr done \<Rightarrow> Inr done
      | Inl (PanicString r) \<Rightarrow> Inr ([] @ [\<lparr>Message = label @ r, PathMissing = False\<rparr>], ws)
      | Inl _ \<Rightarrow> Inl (PanicError ''interface conversion: interface {} is not string''))"

text \<open>The errors of the response, when the validator is called and returns.\<close>

definition responseValidation ::
  "WiretapService \<Rightarrow> model_Request \<Rightarrow> Response \<Rightarrow> panicValue + ValidationError list" where
  "responseValidation ws request returnedResponse =
     (if document ws \<and> docModel ws
      then ValidateHttpResponse ws (HttpRequest request) returnedResponse
      else Inr [])"

definition ValidateResponse ::
  "WiretapService \<Rightarrow> model_Request \<Rightarrow> Response
     \<Rightarrow> panicValue + (ValidationError list \<times> WiretapService)" where
  "ValidateResponse ws request returnedResponse =
     recoverPanic ''Error validating response: '' ws
       (case responseValidation ws request returnedResponse of
          Inl p \<Rightarrow> Inl p
        | Inr validationErrors \<Rightarrow>
            (let cleanedErrors =
                   foldl (\<lambda>cleaned e. if \<not> IsPathMissingError e then cleaned @ [e] else cleaned)
                     [] validationErrors;
                 built = BuildResponse request returnedResponse;
                 transaction =
                   (if length cleanedErrors > 0
                    then built\<lparr>ResponseValidation := cleanedErrors\<rparr> else built);
                 ws1 = ws\<lparr>transactionStore :=
                   (transactionStore ws)(Id request \<mapsto> StoredTransaction transaction)\<rparr>;
                 ws2 =
                   (if length cleanedErrors > 0
                    then ws1\<lparr>streamChan := streamChan ws1 @ [cleanedErrors],
                           broadcasts := broadcasts ws1 @
                             [BroadcastResponseValidationErrors request returnedResponse
                                cleanedErrors]\<rparr>
                    else ws1\<lparr>broadcasts := broadcasts ws1 @
                             [BroadcastResponse request returnedResponse]\<rparr>)
             in Inr (validationErrors, ws2)))"

definition requestValidation ::
  "WiretapService \<Rightarrow> Request \<Rightarrow> panicValue + ValidationError list" where
  "requestValidation ws httpRequest =
     (if document ws \<and> docModel ws then ValidateHttpRequest ws httpRequest else Inr [])"

definition ValidateRequest ::
  "WiretapService \<Rightarrow> model_Request \<Rightarrow> Request
     \<Rightarrow> panicValue + (ValidationError list \<times> WiretapService)" where
  "ValidateRequest ws modelRequest httpRequest =
     recoverPanic ''Error validating request: '' ws
       (case requestValidation ws httpRequest of
          Inl p \<Rightarrow> Inl p
        | Inr validationErrors \<Rightarrow>
            (let cleanedErrors = foldl (\<lambda>cleaned e. cleaned @ [e]) [] validationErrors;
                 buildTransConfig =
                   \<lparr>OriginalRequest = HttpRequest modelRequest, NewRequest = httpRequest,
                    ID = Id modelRequest, TransactionConfig = config ws\<rparr>;
                 built = BuildHttpTransaction buildTransConfig;
                 transaction =
                   (if length cleanedErrors > 0
                    then built\<lparr>RequestValidation := cleanedErrors\<rparr> else built);
                 ws1 = ws\<lparr>transactionStore :=
                   (transactionStore ws)(Id modelRequest \<mapsto> StoredRequest modelRequest)\<rparr>;
                 ws2 =
                   (if length cleanedErrors > 0
                    then ws1\<lparr>streamChan := streamChan ws1 @ [cleanedErrors],
                           broadcasts := broadcasts ws1 @
                             [BroadcastRequestValidationErrors modelRequest cleanedErrors
                                transaction]\<rparr>
                    else ws1\<lparr>broadcasts := broadcasts ws1 @
                             [BroadcastRequest modelRequest transaction]\<rparr>)
             in Inr (cleanedErrors, ws2)))"

text \<open>Sample inputs: a service whose validator reports a missing path and a schema error.\<close>

definition pathMissingError :: ValidationError where
  "pathMissingError = \<lparr>Message = ''path not found'', PathMissing = True\<rparr>"

definition schemaError :: ValidationError where
  "schemaError = \<lparr>Message = ''schema mismatch'', PathMissing = False\<rparr>"

definition okResponse :: Response where
  "okResponse = \<lparr>StatusCode = 200, respHeader = (\<lambda>_. []), respBody = ''{}''\<rparr>"

definition plainModelRequest :: model_Request where
  "plainModelRequest = \<lparr>Id = ''req-1'', HttpRequest = plainRequest\<rparr>"

definition sampleService :: WiretapService where
  "sampleService =
     \<lparr>document = True, docModel = True,
      ValidateHttpRequest = (\<lambda>_. Inr [schemaError]),
      ValidateHttpResponse = (\<lambda>_ _. Inr [pathMissingError, schemaError]),
      config = \<lparr>RedirectProtocol = ''http'', RedirectHost = ''localhost'',
                RedirectPort = ''9090''\<rparr>,
      transactionStore = Map.empty, streamChan = [], broadcasts = [],
      stream = True, streamViolations = [], reportFile = ''report.json''\<rparr>"

text \<open>The same service with a validator that panics with an \<open>error\<close> value.\<close>

definition panickingService :: WiretapService where
  "panickingService =
     sampleService\<lparr>
       ValidateHttpRequest :=
         (\<lambda>_. Inl (PanicError ''runtime error: invalid memory address or nil pointer dereference'')),
       ValidateHttpResponse :=
         (\<lambda>_ _. Inl (PanicError ''runtime error: invalid memory address or nil pointer dereference''))\<rparr>"

section \<open>Transport wrapper (package daemon)\<close>

record wiretapTransport =
  capturedCookieHeaders :: "string list"

definition newWiretapTransport :: wiretapTransport where
  "newWiretapTransport = \<lparr>capturedCookieHeaders = []\<rparr>"

text \<open>
  What lies beyond the wrapper: the original transport, which answers a request with a
  response, an error, or both, and the redirect the HTTP client follows after a
  response (\<open>None\<close> when the response is final).
\<close>

record Upstream =
  originalTransport :: "Request \<Rightarrow> Response option \<times> string option"
  redirectTo :: "Request \<Rightarrow> Response \<Rightarrow> Request option"

definition RoundTrip ::
  "Upstream \<Rightarrow> wiretapTransport \<Rightarrow> Request
     \<Rightarrow> (Response option \<times> string option) \<times> wiretapTransport" where
  "RoundTrip up c r =
     (case originalTransport up r of
        (None, err) \<Rightarrow> ((None, err), c)
      | (Some resp, err) \<Rightarrow>
          (let cookie = Header_Get (respHeader resp) ''Set-Cookie'' in
           if cookie \<noteq> []
           then ((Some resp, err),
                 c\<lparr>capturedCookieHeaders := capturedCookieHeaders c @ [cookie]\<rparr>)
           else ((Some resp, err), c)))"

text \<open>
  \<open>http.Client.Do\<close> of the standard library, as far as the wrapper sees it: one
  \<open>RoundTrip\<close> per hop, an error ends the call, a redirect is followed, and the client
  gives up once ten requests have all been redirected.
\<close>

fun clientDo ::
  "nat \<Rightarrow> Upstream \<Rightarrow> wiretapTransport \<Rightarrow> Request \<Rightarrow> (string + Response) \<times> wiretapTransport"
where
  "clientDo 0 up tr req = (Inl ''stopped after 10 redirects'', tr)"
| "clientDo (Suc n) up tr req =
     (case RoundTrip up tr req of
        ((_, Some err), tr') \<Rightarrow> (Inl err, tr')
      | ((None, None), tr') \<Rightarrow> (Inl ''RoundTripper returned a nil *Response with a nil error'', tr')
      | ((Some resp, None), tr') \<Rightarrow>
          (case redirectTo up req resp of
             None \<Rightarrow> (Inr resp, tr')
           | Some next \<Rightarrow> clientDo n up tr' next))"

text \<open>
  The request \<open>callAPI\<close> sends: the clone with the redirected protocol, host and port,
  and its referer rewritten. \<open>cloneRequest\<close> and \<open>reconstructURL\<close> are not among the
  source files and are parameters.
\<close>

definition forwardedRequest ::
  "(Request \<Rightarrow> string \<Rightarrow> string \<Rightarrow> string \<Rightarrow> Request)
     \<Rightarrow> (Request \<Rightarrow> string \<Rightarrow> string \<Rightarrow> string \<Rightarrow> string)
     \<Rightarrow> WiretapConfiguration \<Rightarrow> Request \<Rightarrow> Request" where
  "forwardedRequest cloneRequest reconstructURL cfg req =
     (let newReq = cloneRequest req (RedirectProtocol cfg) (RedirectHost cfg) (RedirectPort cfg)
      in if Header_Get (Header newReq) ''Referer'' \<noteq> []
         then newReq\<lparr>Header :=
                ((Header newReq)
                   (''X-Original-Referer'' := [Header_Get (Header newReq) ''Referer'']))
                   (''Referer'' :=
                      [reconstructURL req (RedirectProtocol cfg) (RedirectHost cfg)
                         (RedirectPort cfg)])\<rparr>
         else newReq)"

definition callAPI ::
  "(Request \<Rightarrow> string \<Rightarrow> string \<Rightarrow> string \<Rightarrow> Request)
     \<Rightarrow> (Request \<Rightarrow> string \<Rightarrow> string \<Rightarrow> string \<Rightarrow> string)
     \<Rightarrow> Upstream \<Rightarrow> WiretapService \<Rightarrow> Request \<Rightarrow> string + Response" where
  "callAPI cloneRequest reconstructURL up ws req =
     (case clientDo 10 up newWiretapTransport
             (forwardedRequest cloneRequest reconstructURL (config ws) req) of
        (Inl err, _) \<Rightarrow> Inl err
      | (Inr resp, tr) \<Rightarrow>
          (if length (capturedCookieHeaders tr) > 0
           then (if Header_Get (respHeader resp) ''Set-Cookie'' = []
                 then Inr (resp\<lparr>respHeader :=
                        (respHeader resp)(''Set-Cookie'' := [capturedCookieHeaders tr ! 0])\<rparr>)
                 else Inr resp)
           else Inr resp))"

text \<open>The responses the transport returned along the chain of one call, in order.\<close>

fun chainResponses :: "nat \<Rightarrow> Upstream \<Rightarrow> Request \<Rightarrow> Response list" where
  "chainResponses 0 up req = []"
| "chainResponses (Suc n) up req =
     (case originalTransport up req of
        (None, _) \<Rightarrow> []
      | (Some resp, Some err) \<Rightarrow> [resp]
      | (Some resp, None) \<Rightarrow>
          resp # (case redirectTo up req resp of
                    None \<Rightarrow> []
                  | Some next \<Rightarrow> chainResponses n up next))"

definition setCookies :: "Response list \<Rightarrow> string list" where
  "setCookies rs =
     filter (\<lambda>cookie. cookie \<noteq> []) (map (\<lambda>r. Header_Get (respHeader r) ''Set-Cookie'') rs)"

text \<open>
  Sample inputs: \<open>/login\<close> answers 302 with a session cookie and redirects to \<open>/home\<close>,
  which answers 200 without one.
\<close>

definition loginRedirect :: Response where
  "loginRedirect = \<lparr>StatusCode = 302,
     respHeader = (\<lambda>k. if k = ''Set-Cookie'' then [''s=1''] else []), respBody = []\<rparr>"

definition loginUpstream :: Upstream where
  "loginUpstream =
     \<lparr>originalTransport =
        (\<lambda>r. if URL_Path r = ''/login'' then (Some loginRedirect, None)
              else (Some okResponse, None)),
      redirectTo =
        (\<lambda>req resp. if StatusCode resp = 302 then Some (req\<lparr>URL_Path := ''/home''\<rparr>)
                     else None)\<rparr>"

text \<open>
  The same chain, with a final response whose \<open>Set-Cookie\<close> header has two values, the
  first of them empty.
\<close>

definition blankCookieResponse :: Response where
  "blankCookieResponse = \<lparr>StatusCode = 200,
     respHeader = (\<lambda>k. if k = ''Set-Cookie'' then [[], ''b=2''] else []), respBody = ''{}''\<rparr>"

definition blankCookieUpstream :: Upstream where
  "blankCookieUpstream =
     \<lparr>originalTransport =
        (\<lambda>r. if URL_Path r = ''/login'' then (Some loginRedirect, None)
              else (Some blankCookieResponse, None)),
      redirectTo =
        (\<lambda>req resp. if StatusCode resp = 302 then Some (req\<lparr>URL_Path := ''/home''\<rparr>)
                     else None)\<rparr>"

definition loginRequest :: Request where
  "loginRequest = plainRequest\<lparr>URL_Path := ''/login''\<rparr>"

definition sameRequest :: "Request \<Rightarrow> string \<Rightarrow> string \<Rightarrow> string \<Rightarrow> Request" where
  "sameRequest req protocol host port = req\<lparr>Host := host\<rparr>"

definition sameURL :: "Request \<Rightarrow> string \<Rightarrow> string \<Rightarrow> string \<Rightarrow> string" where
  "sameURL req protocol host port = protocol @ ''://'' @ host @ '':'' @ port @ URL_Path req"

section \<open>Report streamer (package daemon, stream_output.go)\<close>

subsection \<open>Time units and filename patterns\<close>

text \<open>\<open>minimumTimeUnit\<close> is an \<open>int\<close> with six named values (\<open>iota\<close>).\<close>

type_synonym minimumTimeUnit = int

definition SECOND :: minimumTimeUnit where "SECOND = 0"
definition MINUTE :: minimumTimeUnit where "MINUTE = 1"
definition HOUR :: minimumTimeUnit where "HOUR = 2"
definition DAY :: minimumTimeUnit where "DAY = 3"
definition MONTH :: minimumTimeUnit where "MONTH = 4"
definition YEAR :: minimumTimeUnit where "YEAR = 5"

record timeUnitMapping =
  input :: string
  goFormat :: string
  unit :: minimumTimeUnit

definition timeUnitMappings :: "timeUnitMapping list" where
  "timeUnitMappings =
     [\<lparr>input = ''YYYY'', goFormat = ''2006'', unit = YEAR\<rparr>,
      \<lparr>input = ''YY'', goFormat = ''06'', unit = YEAR\<rparr>,
      \<lparr>input = ''MM'', goFormat = ''01'', unit = MONTH\<rparr>,
      \<lparr>input = ''DD'', goFormat = ''02'', unit = DAY\<rparr>,
      \<lparr>input = ''HH'', goFormat = ''15'', unit = HOUR\<rparr>,
      \<lparr>input = ''mm'', goFormat = ''04'', unit = MINUTE\<rparr>,
      \<lparr>input = ''SS'', goFormat = ''05'', unit = SECOND\<rparr>]"

text \<open>
  \<open>strings.Contains\<close> and \<open>strings.ReplaceAll\<close> of the standard library, for a
  non-empty \<open>old\<close>: occurrences are replaced from the left and do not overlap. (With an
  empty \<open>old\<close>, which the table above never passes, Go inserts \<open>new\<close> around every
  character; here the string is returned as it is.)
\<close>

fun Contains :: "string \<Rightarrow> string \<Rightarrow> bool" where
  "Contains [] substr = (substr = [])"
| "Contains (c # cs) substr = (prefix substr (c # cs) \<or> Contains cs substr)"

function ReplaceAll :: "string \<Rightarrow> string \<Rightarrow> string \<Rightarrow> string" where
  "ReplaceAll [] old new = []"
| "ReplaceAll (c # cs) old new =
     (if old \<noteq> [] \<and> prefix old (c # cs)
      then new @ ReplaceAll (drop (length old) (c # cs)) old new
      else c # ReplaceAll cs old new)"
  by pat_completeness auto
termination
  by (relation "measure (\<lambda>(s, old, new). length s)") auto

definition applyMapping ::
  "string \<times> minimumTimeUnit \<Rightarrow> timeUnitMapping \<Rightarrow> string \<times> minimumTimeUnit" where
  "applyMapping state mapping =
     (case state of (formatted, smallestUnit) \<Rightarrow>
        if Contains formatted (input mapping)
        then (ReplaceAll formatted (input mapping) (goFormat mapping), unit mapping)
        else (formatted, smallestUnit))"

definition convertPatternToGoTimeFormat :: "string \<Rightarrow> string + (string \<times> minimumTimeUnit)" where
  "convertPatternToGoTimeFormat pattern =
     (case foldl applyMapping (pattern, YEAR) timeUnitMappings of
        (formatted, smallestUnit) \<Rightarrow>
          if formatted = pattern
          then Inl ''no valid time unit placeholders found in pattern''
          else Inr (formatted, smallestUnit))"

subsection \<open>Instants, zones and the calendar (package time of the standard library)\<close>

text \<open>
  A \<open>time.Time\<close> is an instant, here in nanoseconds since the Unix epoch, and a
  location. A location is the offset from UTC, in seconds, in force before its first
  transition, and its transitions in ascending order: the Unix second at which an
  offset takes effect, and that offset.
\<close>

record Location =
  baseOffset :: int
  transitions :: "(int \<times> int) list"

record Time =
  unixNano :: int
  location :: Location

definition Second :: int where "Second = 1000000000"
definition Minute :: int where "Minute = 60 * Second"
definition Hour :: int where "Hour = 60 * Minute"

text \<open>\<open>Location.lookup\<close>: the offset in force at a Unix second, and since when and until when.\<close>

fun lookupFrom :: "int \<Rightarrow> int \<Rightarrow> (int \<times> int) list \<Rightarrow> int \<Rightarrow> int \<times> int \<times> int" where
  "lookupFrom offset start [] sec = (offset, start, 9223372036854775807)"
| "lookupFrom offset start ((at, offset') # later) sec =
     (if sec < at then (offset, start, at) else lookupFrom offset' at later sec)"

definition lookup :: "Location \<Rightarrow> int \<Rightarrow> int \<times> int \<times> int" where
  "lookup l sec = lookupFrom (baseOffset l) (- 9223372036854775808) (transitions l) sec"

text \<open>
  The proleptic Gregorian calendar: the number of days from 1970-01-01 to a date (the
  day may run past the end of the month, as \<open>time.Date\<close> allows; the month is 1 to
  12), and the date of a day number.
\<close>

definition daysFromCivil :: "int \<Rightarrow> int \<Rightarrow> int \<Rightarrow> int" where
  "daysFromCivil year month day =
     (let y = (if month \<le> 2 then year - 1 else year);
          era = y div 400;
          yoe = y - era * 400;
          mp = (if month > 2 then month - 3 else month + 9);
          doy = (153 * mp + 2) div 5 + day - 1;
          doe = yoe * 365 + yoe div 4 - yoe div 100 + doy
      in era * 146097 + doe - 719468)"

definition civilFromDays :: "int \<Rightarrow> int \<times> int \<times> int" where
  "civilFromDays days =
     (let z = days + 719468;
          era = z div 146097;
          doe = z - era * 146097;
          yoe = (doe - doe div 1460 + doe div 36524 - doe div 146096) div 365;
          doy = doe - (365 * yoe + yoe div 4 - yoe div 100);
          mp = (5 * doy + 2) div 153;
          day = doy - (153 * mp + 2) div 5 + 1;
          month = (if mp < 10 then mp + 3 else mp - 9);
          year = yoe + era * 400 + (if month \<le> 2 then 1 else 0)
      in (year, month, day))"

text \<open>
  \<open>time.Date\<close>: the instant at which the clock of the location shows the given date
  and time. The offset is looked up at the wall-clock reading taken as UTC, and looked
  up again at the corrected instant when that falls outside the zone period found.
\<close>

definition Date ::
  "int \<Rightarrow> int \<Rightarrow> int \<Rightarrow> int \<Rightarrow> int \<Rightarrow> int \<Rightarrow> int \<Rightarrow> Location \<Rightarrow> Time" where
  "Date year month day hour minute sec nsec loc =
     (let unix = daysFromCivil year month day * 86400 + hour * 3600 + minute * 60 + sec
      in case lookup loc unix of
           (offset, start, end) \<Rightarrow>
             (let unix' =
                    (if offset \<noteq> 0
                     then (let utc = unix - offset;
                               offset' = (if utc < start \<or> utc \<ge> end
                                          then fst (lookup loc utc) else offset)
                           in unix - offset')
                     else unix)
              in \<lparr>unixNano = unix' * 1000000000 + nsec, location = loc\<rparr>))"

text \<open>The wall clock of a time in its location, in seconds, and \<open>Time.Date()\<close>.\<close>

definition localSeconds :: "Time \<Rightarrow> int" where
  "localSeconds t =
     unixNano t div 1000000000 + fst (lookup (location t) (unixNano t div 1000000000))"

definition Time_Date :: "Time \<Rightarrow> int \<times> int \<times> int" where
  "Time_Date t = civilFromDays (localSeconds t div 86400)"

text \<open>
  \<open>Time.Truncate\<close> rounds down to a multiple of the duration since the zero time
  (January 1 of year 1, UTC: 62135596800 seconds before the epoch), in absolute time
  and not on the wall clock. \<open>Time.Add\<close> adds a duration.
\<close>

definition Truncate :: "Time \<Rightarrow> int \<Rightarrow> Time" where
  "Truncate t d =
     (if d \<le> 0 then t
      else t\<lparr>unixNano := unixNano t - (unixNano t + 62135596800 * 1000000000) mod d\<rparr>)"

definition Add :: "Time \<Rightarrow> int \<Rightarrow> Time" where
  "Add t d = t\<lparr>unixNano := unixNano t + d\<rparr>"

subsection \<open>The next rollover\<close>

definition calculateNextRollover :: "minimumTimeUnit \<Rightarrow> Time \<Rightarrow> string + Time" where
  "calculateNextRollover smallestUnit now =
     (if smallestUnit = SECOND then Inr (Add (Truncate now Second) Second)
      else if smallestUnit = MINUTE then Inr (Add (Truncate now Minute) Minute)
      else if smallestUnit = HOUR then Inr (Add (Truncate now Hour) Hour)
      else if smallestUnit = DAY then
        (case Time_Date now of
           (year, month, day) \<Rightarrow>
             Inr (Add (Date year month day 0 0 0 0 (location now)) (24 * Hour)))
      else if smallestUnit = MONTH then
        (case Time_Date now of
           (year, month, _) \<Rightarrow>
             (if month = 12 then Inr (Date (year + 1) 1 1 0 0 0 0 (location now))
              else Inr (Date year (month + 1) 1 0 0 0 0 (location now))))
      else if smallestUnit = YEAR then
        (case Time_Date now of
           (year, _, _) \<Rightarrow> Inr (Date (year + 1) 1 1 0 0 0 0 (location now)))
      else Inl ''unknown smallest time unit'')"

text \<open>
  What section 4.7 of the spec says of the cadence. The unit is that of the last entry
  of the table, in its fixed order, whose token occurs in the pattern. The instants:
  the first whole second, minute or hour after now (whole in absolute time, as
  \<open>Truncate\<close> rounds); for a day, the midnight that began the local day of now, plus
  24 hours; the first of next month and January 1 of next year at 00:00 local.
\<close>

fun lastMatched :: "string \<Rightarrow> timeUnitMapping list \<Rightarrow> minimumTimeUnit option" where
  "lastMatched pattern [] = None"
| "lastMatched pattern (m # ms) =
     (case lastMatched pattern ms of
        Some u \<Rightarrow> Some u
      | None \<Rightarrow> if Contains pattern (input m) then Some (unit m) else None)"

definition smallestTokenUnit :: "string \<Rightarrow> minimumTimeUnit" where
  "smallestTokenUnit pattern =
     (case lastMatched pattern timeUnitMappings of None \<Rightarrow> YEAR | Some u \<Rightarrow> u)"

definition nextWhole :: "int \<Rightarrow> Time \<Rightarrow> Time" where
  "nextWhole d now = now\<lparr>unixNano := (unixNano now div d + 1) * d\<rparr>"

definition startOfLocalDay :: "Time \<Rightarrow> Time" where
  "startOfLocalDay now =
     (case Time_Date now of (year, month, day) \<Rightarrow> Date year month day 0 0 0 0 (location now))"

definition firstOfNextMonth :: "Time \<Rightarrow> Time" where
  "firstOfNextMonth now =
     (case Time_Date now of
        (year, month, _) \<Rightarrow>
          Date (if month = 12 then year + 1 else year) (if month = 12 then 1 else month + 1)
            1 0 0 0 0 (location now))"

definition firstOfNextYear :: "Time \<Rightarrow> Time" where
  "firstOfNextYear now =
     (case Time_Date now of (year, _, _) \<Rightarrow> Date (year + 1) 1 1 0 0 0 0 (location now))"

definition rolloverInstant :: "minimumTimeUnit \<Rightarrow> Time \<Rightarrow> Time" where
  "rolloverInstant u now =
     (if u = SECOND then nextWhole Second now
      else if u = MINUTE then nextWhole Minute now
      else if u = HOUR then nextWhole Hour now
      else if u = DAY then Add (startOfLocalDay now) (24 * Hour)
      else if u = MONTH then firstOfNextMonth now
      else firstOfNextYear now)"

text \<open>
  A local midnight is an instant at which the wall clock of the location shows
  00:00:00; the next local midnight, in the words of the spec, is the start of the
  calendar day after that of now.
\<close>

definition isLocalMidnight :: "Time \<Rightarrow> bool" where
  "isLocalMidnight t = (unixNano t mod 1000000000 = 0 \<and> localSeconds t mod 86400 = 0)"

definition nextLocalMidnight :: "Time \<Rightarrow> Time" where
  "nextLocalMidnight now =
     (case Time_Date now of
        (year, month, day) \<Rightarrow> Date year month (day + 1) 0 0 0 0 (location now))"

definition tokenLetters :: "string \<Rightarrow> nat" where
  "tokenLetters s = length (filter (\<lambda>c. c \<in> set ''YMDHmS'') s)"

text \<open>
  Sample inputs: New York, where the offset changes from -5 to -4 hours on 2024-03-10
  at 07:00 UTC and back on 2024-11-03 at 06:00 UTC; noon there on 2024-03-10; 23:30
  there on 2024-11-03; and 14:05:09.5 UTC on 2024-03-10.
\<close>

definition newYork :: Location where
  "newYork = \<lparr>baseOffset = - 18000,
     transitions = [(1710054000, - 14400), (1730613600, - 18000)]\<rparr>"

definition newYorkNoon :: Time where
  "newYorkNoon = \<lparr>unixNano = 1710086400000000000, location = newYork\<rparr>"

definition newYorkLateEvening :: Time where
  "newYorkLateEvening = \<lparr>unixNano = 1730694600000000000, location = newYork\<rparr>"

definition utc :: Location where
  "utc = \<lparr>baseOffset = 0, transitions = []\<rparr>"

definition utcAfternoon :: Time where
  "utcAfternoon = \<lparr>unixNano = 1710079509500000000, location = utc\<rparr>"

subsection \<open>The report file\<close>

text \<open>
  The file system: the content of every file that exists, and two faults that decide
  how a call ends: \<open>openFault\<close> is the error of \<open>os.OpenFile\<close>, \<open>writeFault\<close> the number of
  bytes a failing \<open>WriteString\<close> still writes before its error. A file opened with
  \<open>O_APPEND\<close> is written at its end; the handle is the file's name.
\<close>

record Disk =
  files :: "string \<rightharpoonup> string"
  openFault :: "string option"
  writeFault :: "nat option"

definition Remove :: "Disk \<Rightarrow> string \<Rightarrow> Disk" where
  "Remove d name = d\<lparr>files := (files d)(name := None)\<rparr>"

definition OpenFile :: "Disk \<Rightarrow> string \<Rightarrow> string option \<times> Disk" where
  "OpenFile d name =
     (case openFault d of
        Some err \<Rightarrow> (Some err, d)
      | None \<Rightarrow>
          (None, (case files d name of
                    None \<Rightarrow> d\<lparr>files := (files d)(name \<mapsto> [])\<rparr>
                  | Some _ \<Rightarrow> d)))"

definition Size :: "Disk \<Rightarrow> string \<Rightarrow> int" where
  "Size d name = (case files d name of None \<Rightarrow> 0 | Some content \<Rightarrow> int (length content))"

definition WriteString :: "Disk \<Rightarrow> string \<Rightarrow> string \<Rightarrow> string option \<times> Disk" where
  "WriteString d name s =
     (case files d name of
        None \<Rightarrow> (Some ''file does not exist'', d)
      | Some content \<Rightarrow>
          (case writeFault d of
             None \<Rightarrow> (None, d\<lparr>files := (files d)(name \<mapsto> content @ s)\<rparr>)
           | Some written \<Rightarrow>
               (Some ''write failed'', d\<lparr>files := (files d)(name \<mapsto> content @ take written s)\<rparr>)))"

text \<open>\<open>os.Truncate\<close>: a negative size is an error, which the streamer ignores.\<close>

definition Truncate_file :: "Disk \<Rightarrow> string \<Rightarrow> int \<Rightarrow> Disk" where
  "Truncate_file d name newSize =
     (case files d name of
        None \<Rightarrow> d
      | Some content \<Rightarrow>
          if newSize < 0 then d
          else d\<lparr>files := (files d)(name \<mapsto>
                 take (nat newSize) content @
                 replicate (nat newSize - length content) (CHR 0x00))\<rparr>)"

text \<open>
  The regular expression \<open>\{([^}]+)\}\<close>: an opening brace, one or more characters other
  than a closing brace, and a closing brace. \<open>findPlaceholder\<close> is the group of the
  leftmost match (\<open>FindStringSubmatch\<close>). \<open>replacePlaceholders\<close> replaces every match,
  from the left and without overlap (\<open>ReplaceAllString\<close>), by the expansion of the
  replacement template for that match: \<open>expand\<close> stands for the template expansion of
  the regexp package, which takes the template, the text of the match and the text of
  its group, and puts the latter two in for \<open>$0\<close> and \<open>$1\<close>; a template without \<open>$\<close> is
  its own expansion.
\<close>

fun findPlaceholder :: "string \<Rightarrow> string option" where
  "findPlaceholder [] = None"
| "findPlaceholder (c # cs) =
     (if c = CHR ''{'' \<and> takeWhile (\<lambda>x. x \<noteq> CHR ''}'') cs \<noteq> []
           \<and> dropWhile (\<lambda>x. x \<noteq> CHR ''}'') cs \<noteq> []
      then Some (takeWhile (\<lambda>x. x \<noteq> CHR ''}'') cs)
      else findPlaceholder cs)"

function replacePlaceholders ::
  "(string \<Rightarrow> string \<Rightarrow> string \<Rightarrow> string) \<Rightarrow> string \<Rightarrow> string \<Rightarrow> string" where
  "replacePlaceholders expand [] repl = []"
| "replacePlaceholders expand (c # cs) repl =
     (if c = CHR ''{'' \<and> takeWhile (\<lambda>x. x \<noteq> CHR ''}'') cs \<noteq> []
           \<and> dropWhile (\<lambda>x. x \<noteq> CHR ''}'') cs \<noteq> []
      then expand repl (c # takeWhile (\<lambda>x. x \<noteq> CHR ''}'') cs @ ''}'')
             (takeWhile (\<lambda>x. x \<noteq> CHR ''}'') cs)
           @ replacePlaceholders expand (tl (dropWhile (\<lambda>x. x \<noteq> CHR ''}'') cs)) repl
      else c # replacePlaceholders expand cs repl)"
  by pat_completeness auto
termination
  by (relation "measure (\<lambda>(expand, s, repl). length s)")
     (auto simp: less_Suc_eq_le intro!: le_trans [OF diff_le_self length_dropWhile_le])

text \<open>
  The clock and the library: the current time, \<open>Time.Format\<close> of the standard library,
  and the template expansion of its regexp package. The calls of \<open>time.Now()\<close> within
  one \<open>openReportFile\<close> are taken at the same instant.
\<close>

record Clock =
  Now :: Time
  Format :: "Time \<Rightarrow> string \<Rightarrow> string"
  Expand :: "string \<Rightarrow> string \<Rightarrow> string \<Rightarrow> string"

text \<open>
  \<open>openReportFile\<close>, first part: the name of the file and the instant at which the
  rollover channel fires (\<open>None\<close> is the nil channel, which never does).
\<close>

definition reportTarget ::
  "Clock \<Rightarrow> WiretapService \<Rightarrow> Disk \<Rightarrow> string + (string \<times> Time option \<times> Disk)" where
  "reportTarget clock ws d =
     (case findPlaceholder (reportFile ws) of
        Some pattern \<Rightarrow>
          (case convertPatternToGoTimeFormat pattern of
             Inl err \<Rightarrow> Inl err
           | Inr (goTimeFormat, smallestUnit) \<Rightarrow>
               Inr (replacePlaceholders (Expand clock) (reportFile ws)
                      (Format clock (Now clock) goTimeFormat),
                    (case calculateNextRollover smallestUnit (Now clock) of
                       Inl _ \<Rightarrow> None
                     | Inr nextRollover \<Rightarrow> Some nextRollover),
                    d))
      | None \<Rightarrow> Inr (reportFile ws, None, Remove d (reportFile ws)))"

text \<open>
  \<open>openReportFile\<close>, second part. After the write of \<open>[]\<close> the code tests \<open>err\<close>, the
  error of \<open>OpenFile\<close>, which is nil on this path, and not \<open>e\<close>, the error of the write.
\<close>

definition openReportFile ::
  "Clock \<Rightarrow> WiretapService \<Rightarrow> Disk \<Rightarrow> string + (string \<times> Time option \<times> Disk)" where
  "openReportFile clock ws d =
     (case reportTarget clock ws d of
        Inl err \<Rightarrow> Inl err
      | Inr (filename, rolloverChan, d0) \<Rightarrow>
          (case OpenFile d0 filename of
             (Some err, _) \<Rightarrow> Inl err
           | (None, d1) \<Rightarrow>
               (let err = (None :: string option) in
                if Size d1 filename = 0
                then (case WriteString d1 filename ''[]'' of
                        (e, d2) \<Rightarrow>
                          (case err of
                             Some _ \<Rightarrow> Inl (case e of None \<Rightarrow> [] | Some text \<Rightarrow> text)
                           | None \<Rightarrow> Inr (filename, rolloverChan, d2)))
                else Inr (filename, rolloverChan, d1))))"

subsection \<open>The streamer's loop\<close>

text \<open>
  The goroutine of \<open>listenForValidationErrors\<close> owns the open file and the rollover
  channel; the service holds \<open>stream\<close> and \<open>streamViolations\<close>. \<open>marshal\<close> stands for
  \<open>json.Marshal\<close> (its error is ignored by the code). Every write error is ignored or
  only logged.
\<close>

record Streamer =
  service :: WiretapService
  f :: string
  rotateChan :: "Time option"
  disk :: Disk

fun writeViolations ::
  "(ValidationError \<Rightarrow> string) \<Rightarrow> string \<Rightarrow> nat \<Rightarrow> nat \<Rightarrow> ValidationError list \<Rightarrow> Disk \<Rightarrow> Disk"
where
  "writeViolations marshal name i n [] d = d"
| "writeViolations marshal name i n (v # vs) d =
     (let d1 = snd (WriteString d name (marshal v));
          d2 = (if int i < int n - 1 then snd (WriteString d1 name '',\<newline>'') else d1)
      in writeViolations marshal name (Suc i) n vs d2)"

definition appendViolations ::
  "(ValidationError \<Rightarrow> string) \<Rightarrow> Streamer \<Rightarrow> ValidationError list \<Rightarrow> Streamer" where
  "appendViolations marshal st violations =
     (if stream (service st)
      then (let fileSize = Size (disk st) (f st);
                d1 = Truncate_file (disk st) (f st) (fileSize - 1);
                d2 = (if fileSize > 2 then snd (WriteString d1 (f st) '',\<newline>'') else d1);
                ws' = (service st)\<lparr>streamViolations :=
                        streamViolations (service st) @ violations\<rparr>;
                d3 = writeViolations marshal (f st) 0 (length violations) violations d2;
                d4 = snd (WriteString d3 (f st) '']'')
            in st\<lparr>service := ws', disk := d4\<rparr>)
      else st)"

text \<open>The rollover: the file is closed and \<open>openReportFile\<close> runs again; its error ends the goroutine.\<close>

definition rotate :: "Clock \<Rightarrow> Streamer \<Rightarrow> string + Streamer" where
  "rotate clock st =
     (case openReportFile clock (service st) (disk st) of
        Inl err \<Rightarrow> Inl err
      | Inr (name, rolloverChan, d) \<Rightarrow>
          Inr (st\<lparr>f := name, rotateChan := rolloverChan, disk := d\<rparr>))"

text \<open>
  \<open>listenForValidationErrors\<close> up to the start of the goroutine, and the goroutine
  receiving a sequence of batches from \<open>streamChan\<close>.
\<close>

definition listenForValidationErrors :: "Clock \<Rightarrow> WiretapService \<Rightarrow> Disk \<Rightarrow> string + Streamer" where
  "listenForValidationErrors clock ws d =
     (let ws' = ws\<lparr>streamViolations := []\<rparr> in
      case openReportFile clock ws' d of
        Inl err \<Rightarrow> Inl err
      | Inr (name, rolloverChan, d') \<Rightarrow>
          Inr \<lparr>service = ws', f = name, rotateChan = rolloverChan, disk = d'\<rparr>)"

definition receiveAll ::
  "(ValidationError \<Rightarrow> string) \<Rightarrow> Streamer \<Rightarrow> ValidationError list list \<Rightarrow> Streamer" where
  "receiveAll marshal st batches = foldl (appendViolations marshal) st batches"

text \<open>A JSON array of elements already in their JSON form, separated as the streamer does.\<close>

fun joinElements :: "string list \<Rightarrow> string" where
  "joinElements [] = []"
| "joinElements [e] = e"
| "joinElements (e # es) = e @ '',\<newline>'' @ joinElements es"

definition jsonArray :: "string list \<Rightarrow> string" where
  "jsonArray elements = ''['' @ joinElements elements @ '']''"

text \<open>Sample inputs.\<close>

definition emptyDisk :: Disk where
  "emptyDisk = \<lparr>files = Map.empty, openFault = None, writeFault = None\<rparr>"

definition failingDisk :: Disk where
  "failingDisk = \<lparr>files = Map.empty, openFault = None, writeFault = Some 0\<rparr>"

definition fixedClock :: Clock where
  "fixedClock = \<lparr>Now = utcAfternoon, Format = (\<lambda>t layout. layout),
     Expand = (\<lambda>template whole group. template)\<rparr>"

definition quoted :: "string \<Rightarrow> string" where
  "quoted s = CHR 0x22 # s @ [CHR 0x22]"

definition messageJson :: "ValidationError \<Rightarrow> string" where
  "messageJson v = ''{'' @ quoted ''message'' @ '':'' @ quoted (Message v) @ ''}''"

section \<open>Properties of the static mock matcher\<close>

lemma selectorStep_eq: "selectorStep inc found kv = (found \<and> selectorHolds inc kv)"
  by (cases kv; cases "snd kv")
     (simp_all add: selectorStep_def selectorHolds_def transStrArrToInterfaceArr_def)

lemma foldl_selectorStep:
  "foldl (selectorStep inc) found kvs = (found \<and> list_all (selectorHolds inc) kvs)"
  by (induction kvs arbitrary: found) (simp_all add: selectorStep_eq)

text \<open>
  The headers (and the query parameters) match exactly when every entry of the selector
  map holds; a string entry and an array entry are subset tests against the incoming
  values of that name.
\<close>

lemma compareHeaders_iff:
  "compareHeaders mockHeaders incoming = list_all (selectorHolds (Header incoming)) mockHeaders"
  by (simp add: compareHeaders_def foldl_selectorStep)

lemma compareQueryParams_iff:
  "compareQueryParams mockQueryParams q = list_all (selectorHolds q) mockQueryParams"
  by (simp add: compareQueryParams_def foldl_selectorStep)

lemma selectorHolds_string:
  "selectorHolds incoming (k, JString v) =
     IsSubset (JArray [JString v]) (JArray (map JString (incoming k)))"
  by (simp add: selectorHolds_def)

lemma selectorHolds_array:
  "selectorHolds incoming (k, JArray a) = IsSubset (JArray a) (JArray (map JString (incoming k)))"
  by (simp add: selectorHolds_def)

lemma selectorHolds_other:
  "selectorHolds incoming (k, JNull)" "selectorHolds incoming (k, JBool b)"
  "selectorHolds incoming (k, JNumber n)" "selectorHolds incoming (k, JObject obj)"
  by (simp_all add: selectorHolds_def)

text \<open>
  C1. A selector value that is neither a string nor an array is skipped by the type
  switch of \<open>compareHeaders\<close> and \<open>compareQueryParams\<close>, which has no default case: a
  mock whose only header selector is the number 5 matches a request that carries no
  header at all, and a mock whose only query selector is an object matches a request
  without query parameters.
\<close>

theorem unsupported_selector_type_still_matches:
  "isRequestMatch u numberHeaderMock plainRequest = Inr (True, plainRequest) \<and>
   isRequestMatch u objectQueryMock plainRequest = Inr (True, plainRequest)"
  by (simp add: isRequestMatch_def numberHeaderMock_def objectQueryMock_def plainRequest_def
      compareHeaders_def compareQueryParams_def selectorStep_def)

text \<open>
  C6. For a string body the comparison is byte-exact equality, and \<open>compareBody\<close> reads
  the incoming body to its end without putting it back: after a successful match of
  the body \<open>hello\<close> the request's body has nothing left to read.
\<close>

theorem string_body_match_drains_body:
  "isRequestMatch u stringBodyMock plainRequest =
     Inr (True, plainRequest\<lparr>Body := \<lparr>unread = [], readError = None\<rparr>\<rparr>) \<and>
   fst (ReadAll (Body (plainRequest\<lparr>Body := \<lparr>unread = [], readError = None\<rparr>\<rparr>))) = Inr [] \<and>
   fst (ReadAll (Body plainRequest)) = Inr ''hello''"
  by (simp add: isRequestMatch_def stringBodyMock_def plainRequest_def compareBody_def
      ReadAll_def NopCloser_def)

lemma compareBody_string_exact:
  assumes "mBody m = JString mb" and "readError (Body r) = None"
  shows "compareBody u m r = Inr (unread (Body r) = mb, r\<lparr>Body := (Body r)\<lparr>unread := []\<rparr>\<rparr>)"
  using assms by (simp add: compareBody_def ReadAll_def)

lemma compareJsonBody_mBody:
  "mBody m' = mBody m \<Longrightarrow> compareJsonBody u m' r = compareJsonBody u m r"
  by (simp add: compareJsonBody_def split: sum.splits)

lemma compareBody_mBody:
  "mBody m' = mBody m \<Longrightarrow> compareBody u m' r = compareBody u m r"
  by (simp add: compareBody_def compareJsonBody_mBody [of m' m] split: json.splits)

lemma bodyHolds_mBody: "mBody m' = mBody m \<Longrightarrow> bodyHolds u m' r = bodyHolds u m r"
  unfolding bodyHolds_def using compareBody_mBody [of m' m u r] by simp

text \<open>The matcher is the conjunction of its six checks.\<close>

lemma requestMatches_iff:
  "requestMatches u m r \<longleftrightarrow>
     (mHost m = [] \<or> StringCompare (mHost m) (Host r)) \<and>
     Method r = mMethod m \<and>
     (mUrlPath m = [] \<or> StringCompare (mUrlPath m) (URL_Path r)) \<and>
     (case mHeader m of None \<Rightarrow> True | Some h \<Rightarrow> compareHeaders h r) \<and>
     (case mQueryParams m of None \<Rightarrow> True | Some q \<Rightarrow> compareQueryParams q (URL_Query r)) \<and>
     bodyHolds u m r"
  unfolding requestMatches_def isRequestMatch_def bodyHolds_def
  by (cases "mHeader m"; cases "mQueryParams m") simp_all

lemma requestMatches_drop_selectors:
  assumes "requestMatches u m r" and "mBody m' = mBody m" and "mMethod m' = mMethod m"
    and "mHost m' = [] \<or> mHost m' = mHost m"
    and "mUrlPath m' = [] \<or> mUrlPath m' = mUrlPath m"
    and "mHeader m' = None \<or> mHeader m' = mHeader m"
    and "mQueryParams m' = None \<or> mQueryParams m' = mQueryParams m"
  shows "requestMatches u m' r"
proof -
  have b: "bodyHolds u m' r = bodyHolds u m r" using assms(2) by (rule bodyHolds_mBody)
  from assms(1) have h: "mHost m = [] \<or> StringCompare (mHost m) (Host r)"
    and me: "Method r = mMethod m"
    and p: "mUrlPath m = [] \<or> StringCompare (mUrlPath m) (URL_Path r)"
    and hd: "case mHeader m of None \<Rightarrow> True | Some h \<Rightarrow> compareHeaders h r"
    and q: "case mQueryParams m of None \<Rightarrow> True | Some q \<Rightarrow> compareQueryParams q (URL_Query r)"
    and bd: "bodyHolds u m r"
    by (simp_all add: requestMatches_iff)
  have h': "mHost m' = [] \<or> StringCompare (mHost m') (Host r)" using h assms(4) by auto
  have p': "mUrlPath m' = [] \<or> StringCompare (mUrlPath m') (URL_Path r)"
    using p assms(5) by auto
  have hd': "case mHeader m' of None \<Rightarrow> True | Some h \<Rightarrow> compareHeaders h r"
    using hd assms(6) by auto
  have q': "case mQueryParams m' of None \<Rightarrow> True
            | Some q \<Rightarrow> compareQueryParams q (URL_Query r)"
    using q assms(7) by auto
  show ?thesis
    unfolding requestMatches_iff [of u m' r] using h' me p' hd' q' bd b assms(3) by simp
qed

lemma requestMatches_drop_body:
  assumes "requestMatches u m r"
  shows "requestMatches u (m\<lparr>mBody := JNull\<rparr>) r"
proof -
  have "bodyHolds u (m\<lparr>mBody := JNull\<rparr>) r" by (simp add: bodyHolds_def)
  with assms show ?thesis by (simp add: requestMatches_iff)
qed

text \<open>
  C9. Matcher monotonicity: if \<open>isRequestMatch\<close> returns true for a mock and a request,
  it returns true for the same request and the mock with one selector removed: \<open>Host\<close>
  or \<open>UrlPath\<close> set to the empty string, or \<open>Header\<close>, \<open>QueryParams\<close> or \<open>Body\<close> set to
  nil.
\<close>

theorem matcher_monotone:
  assumes "requestMatches u m r"
    and "m' \<in> {m\<lparr>mHost := []\<rparr>, m\<lparr>mUrlPath := []\<rparr>, m\<lparr>mHeader := None\<rparr>,
                m\<lparr>mQueryParams := None\<rparr>, m\<lparr>mBody := JNull\<rparr>}"
  shows "requestMatches u m' r"
proof -
  from assms(2) have "m' = m\<lparr>mHost := []\<rparr> \<or> m' = m\<lparr>mUrlPath := []\<rparr>
    \<or> m' = m\<lparr>mHeader := None\<rparr> \<or> m' = m\<lparr>mQueryParams := None\<rparr>
    \<or> m' = m\<lparr>mBody := JNull\<rparr>"
    by simp
  then show ?thesis
  proof (elim disjE)
    assume "m' = m\<lparr>mHost := []\<rparr>"
    then show ?thesis using requestMatches_drop_selectors [OF assms(1), of m'] by simp
  next
    assume "m' = m\<lparr>mUrlPath := []\<rparr>"
    then show ?thesis using requestMatches_drop_selectors [OF assms(1), of m'] by simp
  next
    assume "m' = m\<lparr>mHeader := None\<rparr>"
    then show ?thesis using requestMatches_drop_selectors [OF assms(1), of m'] by simp
  next
    assume "m' = m\<lparr>mQueryParams := None\<rparr>"
    then show ?thesis using requestMatches_drop_selectors [OF assms(1), of m'] by simp
  next
    assume "m' = m\<lparr>mBody := JNull\<rparr>"
    then show ?thesis using requestMatches_drop_body [OF assms(1)] by simp
  qed
qed

lemma petsMock_matches: "requestMatches noJson petsMock petsRequest"
  by code_simp

theorem matcher_monotone_witness:
  "requestMatches noJson petsMock petsRequest \<and>
   requestMatches noJson (petsMock\<lparr>mHeader := None\<rparr>) petsRequest"
  using matcher_monotone [of noJson petsMock petsRequest "petsMock\<lparr>mHeader := None\<rparr>"]
    petsMock_matches
  by simp

section \<open>Properties of the validator adapter\<close>

lemma foldl_keep: "foldl (\<lambda>cleaned e. if P e then cleaned @ [e] else cleaned) acc es = acc @ filter P es"
  by (induction es arbitrary: acc) simp_all

lemma foldl_copy: "foldl (\<lambda>cleaned e. cleaned @ [e]) acc es = acc @ es"
  by (induction es arbitrary: acc) simp_all

text \<open>
  C2. When the response validator returns a list of errors (or is not called because no
  document is loaded, which counts as the empty list), \<open>ValidateResponse\<close> returns that
  list unfiltered; the transaction put in the store under the request's ID carries
  exactly the errors that are not path-missing, in their order; that cleaned batch is
  sent on the streamer channel only when it is non-empty, and is the batch of the
  broadcast (\<open>broadcastResponse\<close> is used instead when it is empty).
\<close>

theorem ValidateResponse_filters_path_missing:
  assumes "responseValidation ws request resp = Inr validationErrors"
  defines "cleaned \<equiv> filter (\<lambda>e. \<not> IsPathMissingError e) validationErrors"
  shows "\<exists>ws' t.
           ValidateResponse ws request resp = Inr (validationErrors, ws') \<and>
           transactionStore ws' (Id request) = Some (StoredTransaction t) \<and>
           ResponseValidation t = cleaned \<and>
           list_all (\<lambda>e. \<not> IsPathMissingError e) (ResponseValidation t) \<and>
           streamChan ws' = (if cleaned = [] then streamChan ws else streamChan ws @ [cleaned]) \<and>
           broadcasts ws' = broadcasts ws @
             [if cleaned = [] then BroadcastResponse request resp
              else BroadcastResponseValidationErrors request resp cleaned]"
proof (cases "cleaned = []")
  case True
  then show ?thesis
    using assms(1) unfolding cleaned_def
    by (simp add: ValidateResponse_def recoverPanic_def foldl_keep BuildResponse_def Let_def)
next
  case False
  then show ?thesis
    using assms(1) unfolding cleaned_def
    by (simp add: ValidateResponse_def recoverPanic_def foldl_keep list_all_iff Let_def)
qed

theorem ValidateResponse_filters_path_missing_witness:
  "responseValidation sampleService plainModelRequest okResponse
     = Inr [pathMissingError, schemaError] \<and>
   (\<exists>ws' t.
      ValidateResponse sampleService plainModelRequest okResponse
        = Inr ([pathMissingError, schemaError], ws') \<and>
      transactionStore ws' ''req-1'' = Some (StoredTransaction t) \<and>
      ResponseValidation t = [schemaError] \<and>
      streamChan ws' = [[schemaError]] \<and>
      broadcasts ws' =
        [BroadcastResponseValidationErrors plainModelRequest okResponse [schemaError]])"
proof -
  have v: "responseValidation sampleService plainModelRequest okResponse
             = Inr [pathMissingError, schemaError]"
    by (simp add: responseValidation_def sampleService_def)
  have c: "filter (\<lambda>e. \<not> IsPathMissingError e) [pathMissingError, schemaError] = [schemaError]"
    by (simp add: IsPathMissingError_def pathMissingError_def schemaError_def)
  have i: "Id plainModelRequest = ''req-1''" by (simp add: plainModelRequest_def)
  have s: "streamChan sampleService = []" "broadcasts sampleService = []"
    by (simp_all add: sampleService_def)
  from ValidateResponse_filters_path_missing [OF v] show ?thesis
    unfolding c i s using v by auto
qed

text \<open>A panic with a string value is recovered into a single validation error.\<close>

lemma ValidateRequest_string_panic:
  assumes "requestValidation ws httpRequest = Inl (PanicString text)"
  shows "ValidateRequest ws modelRequest httpRequest =
           Inr ([\<lparr>Message = ''Error validating request: '' @ text, PathMissing = False\<rparr>], ws)"
  using assms by (simp add: ValidateRequest_def recoverPanic_def)

lemma ValidateResponse_string_panic:
  assumes "responseValidation ws request resp = Inl (PanicString text)"
  shows "ValidateResponse ws request resp =
           Inr ([\<lparr>Message = ''Error validating response: '' @ text, PathMissing = False\<rparr>], ws)"
  using assms by (simp add: ValidateResponse_def recoverPanic_def)

text \<open>A panic with any other value leaves the operation as a panic.\<close>

lemma ValidateRequest_other_panic:
  assumes "requestValidation ws httpRequest = Inl p" and "\<forall>text. p \<noteq> PanicString text"
  shows "\<exists>q. ValidateRequest ws modelRequest httpRequest = Inl q"
  using assms by (cases p) (simp_all add: ValidateRequest_def recoverPanic_def)

lemma ValidateResponse_other_panic:
  assumes "responseValidation ws request resp = Inl p" and "\<forall>text. p \<noteq> PanicString text"
  shows "\<exists>q. ValidateResponse ws request resp = Inl q"
  using assms by (cases p) (simp_all add: ValidateResponse_def recoverPanic_def)

text \<open>
  C7. A panic whose value is not a string is not turned into a validation error: the
  deferred function's unchecked assertion \<open>r.(string)\<close> panics in its turn, and both
  \<open>ValidateRequest\<close> and \<open>ValidateResponse\<close> end in a panic. Here the validator panics
  with a runtime error, which is an \<open>error\<close> value.
\<close>

theorem error_panic_leaves_validator_adapter:
  "ValidateRequest panickingService plainModelRequest plainRequest
     = Inl (PanicError ''interface conversion: interface {} is not string'') \<and>
   ValidateResponse panickingService plainModelRequest okResponse
     = Inl (PanicError ''interface conversion: interface {} is not string'')"
  by (simp add: ValidateRequest_def ValidateResponse_def recoverPanic_def
      requestValidation_def responseValidation_def panickingService_def sampleService_def)

lemma ValidateRequest_stores_model_request:
  assumes "ValidateRequest ws modelRequest httpRequest = Inr (errs, ws')"
    and "requestValidation ws httpRequest = Inr validationErrors"
  shows "transactionStore ws' (Id modelRequest) = Some (StoredRequest modelRequest)"
  using assms
  by (auto simp: ValidateRequest_def recoverPanic_def Let_def split: if_splits)

text \<open>
  C8. \<open>ValidateRequest\<close> builds the transaction and sets its request-validation errors,
  but the value it puts in the store under the request's ID is the \<open>model.Request\<close> it
  was given, not the transaction; the transaction only goes to the broadcast.
\<close>

theorem ValidateRequest_stores_request_not_transaction:
  "(case ValidateRequest sampleService plainModelRequest plainRequest of
      Inl _ \<Rightarrow> None
    | Inr (errs, ws') \<Rightarrow> transactionStore ws' (Id plainModelRequest))
   = Some (StoredRequest plainModelRequest)"
  by (simp add: ValidateRequest_def recoverPanic_def requestValidation_def sampleService_def
      foldl_copy Let_def)

text \<open>Both operations send only non-empty batches to the streamer.\<close>

lemma ValidateResponse_sends_nonempty:
  assumes "ValidateResponse ws request resp = Inr (errs, ws')" and "[] \<notin> set (streamChan ws)"
  shows "[] \<notin> set (streamChan ws')"
proof (cases "responseValidation ws request resp")
  case (Inl p)
  with assms show ?thesis
    by (cases p) (simp_all add: ValidateResponse_def recoverPanic_def)
next
  case (Inr validationErrors)
  with assms show ?thesis
    by (auto simp: ValidateResponse_def recoverPanic_def Let_def split: if_splits)
qed

lemma ValidateRequest_sends_nonempty:
  assumes "ValidateRequest ws modelRequest httpRequest = Inr (errs, ws')"
    and "[] \<notin> set (streamChan ws)"
  shows "[] \<notin> set (streamChan ws')"
proof (cases "requestValidation ws httpRequest")
  case (Inl p)
  with assms show ?thesis
    by (cases p) (simp_all add: ValidateRequest_def recoverPanic_def)
next
  case (Inr validationErrors)
  with assms show ?thesis
    by (auto simp: ValidateRequest_def recoverPanic_def Let_def split: if_splits)
qed

section \<open>Properties of the transport wrapper\<close>

lemma clientDo_captured:
  "capturedCookieHeaders (snd (clientDo n up tr req)) =
     capturedCookieHeaders tr @ setCookies (chainResponses n up req)"
proof (induction n arbitrary: tr req)
  case 0
  show ?case by (simp add: setCookies_def)
next
  case (Suc n)
  obtain ro eo where ot: "originalTransport up req = (ro, eo)" by (cases "originalTransport up req")
  show ?case
  proof (cases ro)
    case None
    with ot show ?thesis by (cases eo) (simp_all add: RoundTrip_def setCookies_def)
  next
    case (Some resp)
    note resp = this
    show ?thesis
    proof (cases eo)
      case (Some err)
      with ot resp show ?thesis by (simp add: RoundTrip_def setCookies_def Let_def)
    next
      case None
      show ?thesis
      proof (cases "redirectTo up req resp")
        case None
        with ot resp \<open>eo = None\<close> show ?thesis by (simp add: RoundTrip_def setCookies_def Let_def)
      next
        case (Some nxt)
        with ot resp \<open>eo = None\<close> show ?thesis
          by (simp add: RoundTrip_def Let_def Suc.IH) (simp add: setCookies_def)
      qed
    qed
  qed
qed

text \<open>
  C5, amended. When the client returns a final response and the transport captured at
  least one \<open>Set-Cookie\<close> during the chain, \<open>callAPI\<close> returns that response with the
  first captured cookie as its only \<open>Set-Cookie\<close> value if \<open>Header.Get("Set-Cookie")\<close>
  is empty on it, that is, if the header is missing or its first value is the empty
  string; it returns the response unchanged if the first \<open>Set-Cookie\<close> value of the
  response is not empty. The captured cookies are the non-empty first \<open>Set-Cookie\<close>
  values of the responses of the chain, in order.
\<close>

theorem callAPI_promotes_first_cookie:
  assumes "clientDo 10 up newWiretapTransport
             (forwardedRequest cloneRequest reconstructURL (config ws) req) = (Inr resp, tr)"
    and "capturedCookieHeaders tr \<noteq> []"
  shows "callAPI cloneRequest reconstructURL up ws req =
           Inr (if Header_Get (respHeader resp) ''Set-Cookie'' = []
                then resp\<lparr>respHeader :=
                       (respHeader resp)(''Set-Cookie'' := [hd (capturedCookieHeaders tr)])\<rparr>
                else resp) \<and>
         capturedCookieHeaders tr =
           setCookies (chainResponses 10 up
             (forwardedRequest cloneRequest reconstructURL (config ws) req))"
proof -
  have "capturedCookieHeaders tr =
          setCookies (chainResponses 10 up
            (forwardedRequest cloneRequest reconstructURL (config ws) req))"
    using clientDo_captured [of 10 up newWiretapTransport
        "forwardedRequest cloneRequest reconstructURL (config ws) req"] assms(1)
    by (simp add: newWiretapTransport_def)
  moreover have "capturedCookieHeaders tr ! 0 = hd (capturedCookieHeaders tr)"
    using assms(2) by (simp add: hd_conv_nth)
  ultimately show ?thesis using assms by (simp add: callAPI_def)
qed

lemma login_chain:
  "clientDo 10 loginUpstream newWiretapTransport
     (forwardedRequest sameRequest sameURL (config sampleService) loginRequest)
   = (Inr okResponse, \<lparr>capturedCookieHeaders = [''s=1'']\<rparr>)"
  by (simp add: eval_nat_numeral forwardedRequest_def sameRequest_def loginRequest_def
      plainRequest_def sampleService_def Header_Get_def RoundTrip_def loginUpstream_def
      loginRedirect_def okResponse_def newWiretapTransport_def Let_def)

theorem callAPI_promotes_first_cookie_witness:
  "clientDo 10 loginUpstream newWiretapTransport
     (forwardedRequest sameRequest sameURL (config sampleService) loginRequest)
   = (Inr okResponse, \<lparr>capturedCookieHeaders = [''s=1'']\<rparr>) \<and>
   callAPI sameRequest sameURL loginUpstream sampleService loginRequest =
     Inr (okResponse\<lparr>respHeader := (respHeader okResponse)(''Set-Cookie'' := [''s=1''])\<rparr>)"
proof -
  have g: "Header_Get (respHeader okResponse) ''Set-Cookie'' = []"
    by (simp add: Header_Get_def okResponse_def)
  from callAPI_promotes_first_cookie [OF login_chain] login_chain g show ?thesis by simp
qed

text \<open>
  C5, as the spec states it, fails for a final response that has a \<open>Set-Cookie\<close> header
  whose first value is empty: after a redirect that set \<open>s=1\<close>, a final response with
  the \<open>Set-Cookie\<close> values \<open>""\<close> and \<open>b=2\<close> is not left unchanged; its header is replaced
  by the single value \<open>s=1\<close> and \<open>b=2\<close> is lost.
\<close>

theorem blank_first_cookie_is_overwritten:
  "respHeader blankCookieResponse ''Set-Cookie'' = [[], ''b=2''] \<and>
   clientDo 10 blankCookieUpstream newWiretapTransport
     (forwardedRequest sameRequest sameURL (config sampleService) loginRequest)
   = (Inr blankCookieResponse, \<lparr>capturedCookieHeaders = [''s=1'']\<rparr>) \<and>
   callAPI sameRequest sameURL blankCookieUpstream sampleService loginRequest =
     Inr (blankCookieResponse\<lparr>respHeader :=
            (respHeader blankCookieResponse)(''Set-Cookie'' := [''s=1''])\<rparr>) \<and>
   callAPI sameRequest sameURL blankCookieUpstream sampleService loginRequest
     \<noteq> Inr blankCookieResponse"
proof -
  have h: "respHeader blankCookieResponse ''Set-Cookie'' = [[], ''b=2'']"
    by (simp add: blankCookieResponse_def)
  have chain: "clientDo 10 blankCookieUpstream newWiretapTransport
       (forwardedRequest sameRequest sameURL (config sampleService) loginRequest)
     = (Inr blankCookieResponse, \<lparr>capturedCookieHeaders = [''s=1'']\<rparr>)"
    by (simp add: eval_nat_numeral forwardedRequest_def sameRequest_def loginRequest_def
        plainRequest_def sampleService_def Header_Get_def RoundTrip_def blankCookieUpstream_def
        loginRedirect_def blankCookieResponse_def newWiretapTransport_def Let_def)
  have g: "Header_Get (respHeader blankCookieResponse) ''Set-Cookie'' = []"
    by (simp add: Header_Get_def h)
  have c: "callAPI sameRequest sameURL blankCookieUpstream sampleService loginRequest =
     Inr (blankCookieResponse\<lparr>respHeader :=
            (respHeader blankCookieResponse)(''Set-Cookie'' := [''s=1''])\<rparr>)"
    using chain g by (simp add: callAPI_def)
  have "respHeader (blankCookieResponse\<lparr>respHeader :=
            (respHeader blankCookieResponse)(''Set-Cookie'' := [''s=1''])\<rparr>) ''Set-Cookie''
          \<noteq> respHeader blankCookieResponse ''Set-Cookie''"
    unfolding h by simp
  then have "blankCookieResponse\<lparr>respHeader :=
            (respHeader blankCookieResponse)(''Set-Cookie'' := [''s=1''])\<rparr>
          \<noteq> blankCookieResponse"
    by metis
  with h chain c show ?thesis by simp
qed

section \<open>Properties of the report file\<close>

text \<open>A file with a known content on a disk whose writes succeed.\<close>

lemma WriteString_content:
  assumes "files d name = Some content" and "writeFault d = None"
  shows "files (snd (WriteString d name s)) name = Some (content @ s)"
    and "writeFault (snd (WriteString d name s)) = None"
  using assms by (simp_all add: WriteString_def)

lemma Truncate_file_content:
  assumes "files d name = Some content" and "0 \<le> n" and "nat n \<le> length content"
  shows "files (Truncate_file d name n) name = Some (take (nat n) content)"
    and "writeFault (Truncate_file d name n) = writeFault d"
  using assms by (simp_all add: Truncate_file_def)

lemma Size_content: "files d name = Some content \<Longrightarrow> Size d name = int (length content)"
  by (simp add: Size_def)

lemma joinElements_Cons:
  "joinElements (e # es) = (if es = [] then e else e @ '',\<newline>'' @ joinElements es)"
  by (cases es) simp_all

lemma joinElements_append:
  "joinElements (es @ bs) =
     (if es = [] then joinElements bs
      else if bs = [] then joinElements es
      else joinElements es @ '',\<newline>'' @ joinElements bs)"
  by (induction es) (simp_all add: joinElements_Cons)

lemma joinElements_empty_iff:
  assumes "\<forall>e \<in> set es. e \<noteq> []"
  shows "joinElements es = [] \<longleftrightarrow> es = []"
  using assms by (cases es) (simp_all add: joinElements_Cons)

lemma joinElements_length:
  assumes "\<forall>e \<in> set es. 2 \<le> length e" and "es \<noteq> []"
  shows "2 \<le> length (joinElements es)"
  using assms by (cases es) (simp_all add: joinElements_Cons)

lemma writeViolations_content:
  assumes "files d name = Some content" and "writeFault d = None" and "i + length vs = n"
  shows "files (writeViolations marshal name i n vs d) name
           = Some (content @ joinElements (map marshal vs)) \<and>
         writeFault (writeViolations marshal name i n vs d) = None"
  using assms
proof (induction vs arbitrary: d content i)
  case Nil
  then show ?case by simp
next
  case (Cons v vs)
  let ?d1 = "snd (WriteString d name (marshal v))"
  have d1: "files ?d1 name = Some (content @ marshal v)" "writeFault ?d1 = None"
    using WriteString_content [OF Cons.prems(1,2)] by simp_all
  show ?case
  proof (cases "vs = []")
    case True
    with Cons.prems(3) have "\<not> int i < int n - 1" by simp
    with True d1 show ?thesis by (simp add: Let_def)
  next
    case False
    with Cons.prems(3) have lt: "int i < int n - 1" by (cases vs) simp_all
    let ?d2 = "snd (WriteString ?d1 name '',\<newline>'')"
    have d2: "files ?d2 name = Some ((content @ marshal v) @ '',\<newline>'')" "writeFault ?d2 = None"
      using WriteString_content [OF d1] by simp_all
    from Cons.prems(3) have "Suc i + length vs = n" by simp
    from Cons.IH [OF d2 this] lt False show ?thesis
      by (simp add: Let_def joinElements_Cons)
  qed
qed

text \<open>
  One append: a file that holds the array of the elements written so far holds, after
  a non-empty batch, the array extended by the batch.
\<close>

lemma appendViolations_content:
  assumes content: "files (disk st) (f st) = Some (jsonArray es)"
    and nofault: "writeFault (disk st) = None"
    and on: "stream (service st)"
    and es: "\<forall>e \<in> set es. e \<noteq> []"
    and batch: "violations \<noteq> []"
  shows "files (disk (appendViolations marshal st violations)) (f st)
           = Some (jsonArray (es @ map marshal violations))"
    and "writeFault (disk (appendViolations marshal st violations)) = None"
    and "f (appendViolations marshal st violations) = f st"
    and "stream (service (appendViolations marshal st violations))"
    and "streamViolations (service (appendViolations marshal st violations))
           = streamViolations (service st) @ violations"
proof -
  let ?name = "f st"
  let ?j = "joinElements es"
  have size: "Size (disk st) ?name = 2 + int (length ?j)"
    using Size_content [OF content] by (simp add: jsonArray_def)
  let ?d1 = "Truncate_file (disk st) ?name (Size (disk st) ?name - 1)"
  have cut: "nat (Size (disk st) ?name - 1) = Suc (length ?j)"
    unfolding size by simp
  have "take (nat (Size (disk st) ?name - 1)) (jsonArray es) = ''['' @ ?j"
    unfolding cut by (simp add: jsonArray_def)
  moreover have "0 \<le> Size (disk st) ?name - 1" unfolding size by simp
  moreover have "nat (Size (disk st) ?name - 1) \<le> length (jsonArray es)"
    unfolding cut by (simp add: jsonArray_def)
  ultimately have d1: "files ?d1 ?name = Some (''['' @ ?j)" "writeFault ?d1 = None"
    using Truncate_file_content [OF content, of "Size (disk st) ?name - 1"] nofault
    by simp_all
  let ?d2 = "if Size (disk st) ?name > 2 then snd (WriteString ?d1 ?name '',\<newline>'') else ?d1"
  have gt: "Size (disk st) ?name > 2 \<longleftrightarrow> es \<noteq> []"
    unfolding size using joinElements_empty_iff [OF es] by auto
  have d2: "files ?d2 ?name = Some (''['' @ ?j @ (if es = [] then [] else '',\<newline>''))"
    "writeFault ?d2 = None"
    using WriteString_content [OF d1, of "'',\<newline>''"] d1 gt by auto
  let ?d3 = "writeViolations marshal ?name 0 (length violations) violations ?d2"
  have d3: "files ?d3 ?name
              = Some ((''['' @ ?j @ (if es = [] then [] else '',\<newline>''))
                  @ joinElements (map marshal violations))"
    "writeFault ?d3 = None"
    using writeViolations_content [OF d2, of 0 violations "length violations" marshal] by simp_all
  let ?d4 = "snd (WriteString ?d3 ?name '']'')"
  have d4: "files ?d4 ?name
              = Some (((''['' @ ?j @ (if es = [] then [] else '',\<newline>''))
                  @ joinElements (map marshal violations)) @ '']'')"
    "writeFault ?d4 = None"
    using WriteString_content [OF d3] by simp_all
  have st': "appendViolations marshal st violations
               = st\<lparr>service := (service st)\<lparr>streamViolations :=
                       streamViolations (service st) @ violations\<rparr>,
                    disk := ?d4\<rparr>"
    using on by (simp add: appendViolations_def Let_def)
  have arr: "((''['' @ ?j @ (if es = [] then [] else '',\<newline>''))
               @ joinElements (map marshal violations)) @ '']''
             = jsonArray (es @ map marshal violations)"
    using batch by (simp add: jsonArray_def joinElements_append)
  show "files (disk (appendViolations marshal st violations)) (f st)
          = Some (jsonArray (es @ map marshal violations))"
    unfolding st' using d4(1) arr by simp
  show "writeFault (disk (appendViolations marshal st violations)) = None"
    unfolding st' using d4(2) by simp
  show "f (appendViolations marshal st violations) = f st" unfolding st' by simp
  show "stream (service (appendViolations marshal st violations))"
    unfolding st' using on by simp
  show "streamViolations (service (appendViolations marshal st violations))
          = streamViolations (service st) @ violations"
    unfolding st' by simp
qed

lemma receiveAll_content:
  assumes "files (disk st) (f st) = Some (jsonArray es)"
    and "writeFault (disk st) = None"
    and "stream (service st)"
    and "\<forall>e \<in> set es. e \<noteq> []"
    and "\<forall>b \<in> set batches. b \<noteq> [] \<and> (\<forall>v \<in> set b. marshal v \<noteq> [])"
  shows "files (disk (receiveAll marshal st batches)) (f st)
           = Some (jsonArray (es @ map marshal (concat batches))) \<and>
         streamViolations (service (receiveAll marshal st batches))
           = streamViolations (service st) @ concat batches"
  using assms
proof (induction batches arbitrary: st es)
  case Nil
  then show ?case by (simp add: receiveAll_def)
next
  case (Cons b batches)
  let ?st = "appendViolations marshal st b"
  from Cons.prems(5) have b: "b \<noteq> []" and mb: "\<forall>v \<in> set b. marshal v \<noteq> []" by simp_all
  note step = appendViolations_content [OF Cons.prems(1,2,3,4) b, of marshal]
  have file': "files (disk ?st) (f ?st) = Some (jsonArray (es @ map marshal b))"
    using step(1,3) by simp
  have es': "\<forall>e \<in> set (es @ map marshal b). e \<noteq> []" using Cons.prems(4) mb by auto
  have rest: "\<forall>b \<in> set batches. b \<noteq> [] \<and> (\<forall>v \<in> set b. marshal v \<noteq> [])"
    using Cons.prems(5) by simp
  from Cons.IH [OF file' step(2) step(4) es' rest] step(3,5) show ?case
    by (simp add: receiveAll_def)
qed

lemma reportTarget_disk:
  assumes "reportTarget clock ws d = Inr (name, rc, d0)"
  shows "(findPlaceholder (reportFile ws) = None \<and> name = reportFile ws
            \<and> d0 = Remove d (reportFile ws))
         \<or> (findPlaceholder (reportFile ws) \<noteq> None \<and> d0 = d)"
  using assms by (auto simp: reportTarget_def split: option.splits sum.splits)

lemma openReportFile_new_file:
  assumes opened: "openReportFile clock ws d = Inr (name, rc, d')"
    and nofault: "writeFault d = None"
    and fresh: "findPlaceholder (reportFile ws) = None \<or> Size d name = 0"
  shows "files d' name = Some ''[]''" and "writeFault d' = None"
proof -
  from opened obtain d0 where target: "reportTarget clock ws d = Inr (name, rc, d0)"
    by (auto simp: openReportFile_def Let_def split: sum.splits prod.splits option.splits if_splits)
  from reportTarget_disk [OF target] fresh nofault
  have d0: "Size d0 name = 0" "writeFault d0 = None"
    by (auto simp: Remove_def Size_def)
  from opened target obtain d1 where o: "OpenFile d0 name = (None, d1)"
    by (auto simp: openReportFile_def Let_def split: sum.splits prod.splits option.splits if_splits)
  from o d0 have d1: "files d1 name = Some []" "writeFault d1 = None"
    by (auto simp: OpenFile_def Size_def split: option.splits)
  then have "Size d1 name = 0" by (simp add: Size_def)
  with opened target o have d': "d' = snd (WriteString d1 name ''[]'')"
    by (auto simp: openReportFile_def Let_def split: prod.splits)
  show "files d' name = Some ''[]''" unfolding d' using WriteString_content [OF d1] by simp
  show "writeFault d' = None" unfolding d' using WriteString_content [OF d1] by simp
qed

text \<open>
  C3. The report file of a streamer that just started on a new file (no placeholder in
  the configured name, so that the file was removed first, or no file or an empty one
  under the name) holds the two bytes \<open>[]\<close>. After the streamer has received any
  sequence of batches, each non-empty as the senders make them, the file holds an
  opening bracket, the JSON forms of all violations received so far, in order and
  separated by a comma and a newline, and a closing bracket; the violations kept in
  memory are the same. On such a file the test that decides the separator of the next
  append, made on the size before the truncation, agrees with the test on the size that
  remains. Writes are taken to succeed, streaming to be switched on, and the JSON
  form of a violation to have at least two bytes.
\<close>

theorem report_file_stays_json_array:
  assumes "listenForValidationErrors clock ws d = Inr st"
    and "writeFault d = None"
    and "findPlaceholder (reportFile ws) = None \<or> Size d (f st) = 0"
    and "stream ws"
    and "\<forall>b \<in> set batches. b \<noteq> [] \<and> (\<forall>v \<in> set b. 2 \<le> length (marshal v))"
  shows "files (disk st) (f st) = Some ''[]'' \<and>
         files (disk (receiveAll marshal st batches)) (f st)
           = Some (jsonArray (map marshal (concat batches))) \<and>
         streamViolations (service (receiveAll marshal st batches)) = concat batches \<and>
         (Size (disk (receiveAll marshal st batches)) (f st) > 2)
           = (Size (disk (receiveAll marshal st batches)) (f st) - 1 > 2)"
proof -
  let ?ws = "ws\<lparr>streamViolations := []\<rparr>"
  let ?all = "map marshal (concat batches)"
  from assms(1) have opened: "openReportFile clock ?ws d = Inr (f st, rotateChan st, disk st)"
    and svc: "service st = ?ws"
    by (auto simp: listenForValidationErrors_def Let_def split: sum.splits)
  have fresh: "findPlaceholder (reportFile ?ws) = None \<or> Size d (f st) = 0"
    using assms(3) by simp
  note new = openReportFile_new_file [OF opened assms(2) fresh]
  have start: "files (disk st) (f st) = Some (jsonArray [])"
    using new(1) by (simp add: jsonArray_def)
  have on: "stream (service st)" using svc assms(4) by simp
  have none: "\<forall>e \<in> set ([] :: string list). e \<noteq> []" by simp
  have nonempty: "\<forall>b \<in> set batches. b \<noteq> [] \<and> (\<forall>v \<in> set b. marshal v \<noteq> [])"
    using assms(5) by fastforce
  note run = receiveAll_content [OF start new(2) on none nonempty]
  have long: "\<forall>e \<in> set ?all. 2 \<le> length e" using assms(5) by auto
  have "Size (disk (receiveAll marshal st batches)) (f st) = 2 + int (length (joinElements ?all))"
    using run Size_content [of "disk (receiveAll marshal st batches)" "f st" "jsonArray ?all"]
    by (simp add: jsonArray_def)
  moreover have "joinElements ?all = [] \<or> 2 \<le> length (joinElements ?all)"
  proof (cases "?all = []")
    case True
    then have "joinElements ?all = joinElements []" by (rule arg_cong)
    then show ?thesis by simp
  next
    case False
    from joinElements_length [OF long False] show ?thesis ..
  qed
  ultimately have "(Size (disk (receiveAll marshal st batches)) (f st) > 2)
                     = (Size (disk (receiveAll marshal st batches)) (f st) - 1 > 2)"
    by auto
  with run new(1) svc show ?thesis by simp
qed

lemma sample_streamer:
  "listenForValidationErrors fixedClock sampleService emptyDisk =
     Inr \<lparr>service = sampleService, f = ''report.json'', rotateChan = None,
          disk = emptyDisk\<lparr>files := [''report.json'' \<mapsto> ''[]'']\<rparr>\<rparr>"
  by (simp add: listenForValidationErrors_def openReportFile_def reportTarget_def
      sampleService_def emptyDisk_def Remove_def OpenFile_def Size_def WriteString_def Let_def)

theorem report_file_stays_json_array_witness:
  "listenForValidationErrors fixedClock sampleService emptyDisk =
     Inr \<lparr>service = sampleService, f = ''report.json'', rotateChan = None,
          disk = emptyDisk\<lparr>files := [''report.json'' \<mapsto> ''[]'']\<rparr>\<rparr> \<and>
   files (disk (receiveAll messageJson
       \<lparr>service = sampleService, f = ''report.json'', rotateChan = None,
        disk = emptyDisk\<lparr>files := [''report.json'' \<mapsto> ''[]'']\<rparr>\<rparr>
       [[schemaError], [pathMissingError, schemaError]])) ''report.json''
     = Some (jsonArray [messageJson schemaError, messageJson pathMissingError,
          messageJson schemaError])"
proof -
  have a: "writeFault emptyDisk = None" by (simp add: emptyDisk_def)
  have b: "findPlaceholder (reportFile sampleService) = None
           \<or> Size emptyDisk
                (f \<lparr>service = sampleService, f = ''report.json'', rotateChan = None,
                     disk = emptyDisk\<lparr>files := [''report.json'' \<mapsto> ''[]'']\<rparr>\<rparr>) = 0"
    by (simp add: sampleService_def)
  have c: "stream sampleService" by (simp add: sampleService_def)
  have e: "\<forall>b \<in> set [[schemaError], [pathMissingError, schemaError]].
             b \<noteq> [] \<and> (\<forall>v \<in> set b. 2 \<le> length (messageJson v))"
    by (simp add: messageJson_def quoted_def)
  from report_file_stays_json_array [OF sample_streamer a b c e] sample_streamer
  show ?thesis by simp
qed

text \<open>
  C10. When \<open>openReportFile\<close> finds the file it opened empty and the write of \<open>[]\<close>
  fails after fewer than two bytes, the failure is not reported: the test that follows
  the write looks at the error of \<open>OpenFile\<close>, which is nil there, so the file is
  returned with no error although its content is not \<open>[]\<close>.
\<close>

theorem openReportFile_hides_failed_write:
  assumes "reportTarget clock ws d = Inr (name, rc, d0)"
    and "openFault d0 = None"
    and "Size d0 name = 0"
    and "writeFault d0 = Some written"
    and "written < 2"
  shows "\<exists>d1 d2.
           OpenFile d0 name = (None, d1) \<and>
           WriteString d1 name ''[]'' = (Some ''write failed'', d2) \<and>
           openReportFile clock ws d = Inr (name, rc, d2) \<and>
           files d2 name = Some (take written ''[]'') \<and>
           files d2 name \<noteq> Some ''[]''"
proof -
  obtain d1 where o: "OpenFile d0 name = (None, d1)"
    using assms(2) by (simp add: OpenFile_def)
  from o assms(2,3,4) have d1: "files d1 name = Some []" "writeFault d1 = Some written"
    by (auto simp: OpenFile_def Size_def split: option.splits)
  then have size: "Size d1 name = 0" by (simp add: Size_def)
  obtain d2 where w: "WriteString d1 name ''[]'' = (Some ''write failed'', d2)"
    using d1 by (simp add: WriteString_def)
  from w d1 have c: "files d2 name = Some (take written ''[]'')"
    by (auto simp: WriteString_def)
  have "take written ''[]'' \<noteq> ''[]''"
  proof
    assume "take written ''[]'' = ''[]''"
    then have "length (take written ''[]'') = 2" by simp
    with assms(5) show False by simp
  qed
  with c have n: "files d2 name \<noteq> Some ''[]''" by simp
  have "openReportFile clock ws d = Inr (name, rc, d2)"
    using assms(1) o size w by (simp add: openReportFile_def Let_def)
  with o w c n show ?thesis by blast
qed

lemma failing_target:
  "reportTarget fixedClock sampleService failingDisk = Inr (''report.json'', None, failingDisk)"
  by (simp add: reportTarget_def sampleService_def failingDisk_def Remove_def)

theorem openReportFile_hides_failed_write_witness:
  "reportTarget fixedClock sampleService failingDisk = Inr (''report.json'', None, failingDisk) \<and>
   openReportFile fixedClock sampleService failingDisk
     = Inr (''report.json'', None, failingDisk\<lparr>files := [''report.json'' \<mapsto> []]\<rparr>)"
proof -
  have a: "openFault failingDisk = None" "Size failingDisk ''report.json'' = 0"
    "writeFault failingDisk = Some 0" "(0::nat) < 2"
    by (simp_all add: failingDisk_def Size_def)
  from openReportFile_hides_failed_write [OF failing_target a]
  obtain d1 d2 where "OpenFile failingDisk ''report.json'' = (None, d1)"
    and "WriteString d1 ''report.json'' ''[]'' = (Some ''write failed'', d2)"
    and r: "openReportFile fixedClock sampleService failingDisk = Inr (''report.json'', None, d2)"
    by blast
  then have "d2 = failingDisk\<lparr>files := [''report.json'' \<mapsto> []]\<rparr>"
    by (auto simp: OpenFile_def WriteString_def failingDisk_def)
  with r failing_target show ?thesis by simp
qed

section \<open>Properties of the rollover cadence\<close>

subsection \<open>Tokens in a pattern\<close>

lemma Contains_pair_Cons:
  "Contains (x # xs) [c, c] = ((x = c \<and> prefix [c] xs) \<or> Contains xs [c, c])"
  by auto

lemma Contains_pair_skip:
  "c \<notin> set u \<Longrightarrow> Contains (u @ r) [c, c] = Contains r [c, c]"
  by (induction u) simp_all

lemma ReplaceAll_first_char:
  assumes "c \<notin> set old" and "c \<notin> set new" and "new \<noteq> []"
  shows "prefix [c] (ReplaceAll s old new) = prefix [c] s"
proof (cases s)
  case Nil
  then show ?thesis by simp
next
  case (Cons x xs)
  show ?thesis
  proof (cases "old \<noteq> [] \<and> prefix old (x # xs)")
    case True
    then obtain a rest where old: "old = a # rest" by (cases old) auto
    with True have "x = a" by simp
    with old assms(1) have "x \<noteq> c" by auto
    moreover obtain n ns where "new = n # ns" using assms(3) by (cases new) auto
    moreover from this assms(2) have "n \<noteq> c" by auto
    ultimately show ?thesis using Cons True by simp
  next
    case False
    with Cons show ?thesis by auto
  qed
qed

text \<open>
  Replacing a token by digits neither creates nor destroys a doubled letter that
  occurs in neither of them.
\<close>

lemma ReplaceAll_keeps_pair:
  assumes "c \<notin> set old" and "c \<notin> set new" and "new \<noteq> []"
  shows "Contains (ReplaceAll s old new) [c, c] = Contains s [c, c]"
  using assms
proof (induction s old new rule: ReplaceAll.induct)
  case (1 old new)
  show ?case by simp
next
  case (2 x xs old new)
  show ?case
  proof (cases "old \<noteq> [] \<and> prefix old (x # xs)")
    case True
    then have split: "x # xs = old @ drop (length old) (x # xs)"
      by (metis append_take_drop_id prefix_def append_eq_conv_conj)
    have "Contains (ReplaceAll (x # xs) old new) [c, c]
            = Contains (new @ ReplaceAll (drop (length old) (x # xs)) old new) [c, c]"
      using True by simp
    also have "\<dots> = Contains (ReplaceAll (drop (length old) (x # xs)) old new) [c, c]"
      using "2.prems"(2) by (rule Contains_pair_skip)
    also have "\<dots> = Contains (drop (length old) (x # xs)) [c, c]"
      using "2.IH"(1) [OF True "2.prems"] .
    also have "\<dots> = Contains (old @ drop (length old) (x # xs)) [c, c]"
      using "2.prems"(1) by (simp add: Contains_pair_skip)
    finally show ?thesis using split by simp
  next
    case False
    have "Contains (ReplaceAll (x # xs) old new) [c, c]
            = Contains (x # ReplaceAll xs old new) [c, c]"
      using False by auto
    also have "\<dots> = ((x = c \<and> prefix [c] (ReplaceAll xs old new))
                     \<or> Contains (ReplaceAll xs old new) [c, c])"
      by (rule Contains_pair_Cons)
    also have "\<dots> = ((x = c \<and> prefix [c] xs) \<or> Contains xs [c, c])"
      using "2.IH"(2) [OF False "2.prems"] ReplaceAll_first_char [OF "2.prems"] by simp
    also have "\<dots> = Contains (x # xs) [c, c]"
      by (rule Contains_pair_Cons [symmetric])
    finally show ?thesis .
  qed
qed

lemma applyMapping_keeps_pair:
  assumes "c \<notin> set (input m)" and "c \<notin> set (goFormat m)" and "goFormat m \<noteq> []"
  shows "Contains (fst (applyMapping st m)) [c, c] = Contains (fst st) [c, c]"
  by (cases st) (simp add: applyMapping_def ReplaceAll_keeps_pair [OF assms])

lemma foldl_applyMapping_keeps_pair:
  assumes "\<forall>m \<in> set ms. c \<notin> set (input m) \<and> c \<notin> set (goFormat m) \<and> goFormat m \<noteq> []"
  shows "Contains (fst (foldl applyMapping st ms)) [c, c] = Contains (fst st) [c, c]"
  using assms by (induction ms arbitrary: st) (simp_all add: applyMapping_keeps_pair)

lemma foldl_applyMapping_last:
  "snd (foldl applyMapping st (ms @ [m])) =
     (if Contains (fst (foldl applyMapping st ms)) (input m) then unit m
      else snd (foldl applyMapping st ms))"
  by (cases "foldl applyMapping st ms") (simp add: applyMapping_def)

lemma foldl_applyMapping_year:
  assumes "\<forall>m \<in> set ms. unit m = YEAR"
  shows "snd (foldl applyMapping (p, YEAR) ms) = YEAR"
  using assms
proof (induction ms rule: rev_induct)
  case Nil
  show ?case by simp
next
  case (snoc m ms)
  then show ?case by (simp add: foldl_applyMapping_last del: foldl_append)
qed

lemma unit_stage:
  assumes "\<forall>m \<in> set ms. c \<notin> set (input m) \<and> c \<notin> set (goFormat m) \<and> goFormat m \<noteq> []"
    and "input m = [c, c]"
  shows "snd (foldl applyMapping (p, u) (ms @ [m])) =
           (if Contains p [c, c] then unit m else snd (foldl applyMapping (p, u) ms))"
  using foldl_applyMapping_last [of "(p, u)" ms m]
    foldl_applyMapping_keeps_pair [OF assms(1), of "(p, u)"] assms(2)
  by simp

text \<open>
  The unit the loop ends with: the table is scanned in its order and every match
  overwrites the unit, so the last matching entry decides; the digits put in for
  earlier tokens do not change which later tokens match.
\<close>

lemma convert_unit_chain:
  "snd (foldl applyMapping (p, YEAR) timeUnitMappings) =
     (if Contains p ''SS'' then SECOND
      else if Contains p ''mm'' then MINUTE
      else if Contains p ''HH'' then HOUR
      else if Contains p ''DD'' then DAY
      else if Contains p ''MM'' then MONTH
      else YEAR)"
proof -
  let ?y4 = "\<lparr>input = ''YYYY'', goFormat = ''2006'', unit = YEAR\<rparr>"
  let ?y2 = "\<lparr>input = ''YY'', goFormat = ''06'', unit = YEAR\<rparr>"
  let ?mo = "\<lparr>input = ''MM'', goFormat = ''01'', unit = MONTH\<rparr>"
  let ?dd = "\<lparr>input = ''DD'', goFormat = ''02'', unit = DAY\<rparr>"
  let ?hh = "\<lparr>input = ''HH'', goFormat = ''15'', unit = HOUR\<rparr>"
  let ?mi = "\<lparr>input = ''mm'', goFormat = ''04'', unit = MINUTE\<rparr>"
  let ?ss = "\<lparr>input = ''SS'', goFormat = ''05'', unit = SECOND\<rparr>"
  let ?run = "\<lambda>ms. snd (foldl applyMapping (p, YEAR) ms)"
  have s7: "?run ([?y4, ?y2, ?mo, ?dd, ?hh, ?mi] @ [?ss]) =
              (if Contains p ''SS'' then SECOND else ?run [?y4, ?y2, ?mo, ?dd, ?hh, ?mi])"
    using unit_stage [of "[?y4, ?y2, ?mo, ?dd, ?hh, ?mi]" "CHR ''S''" ?ss p YEAR] by simp
  have s6: "?run ([?y4, ?y2, ?mo, ?dd, ?hh] @ [?mi]) =
              (if Contains p ''mm'' then MINUTE else ?run [?y4, ?y2, ?mo, ?dd, ?hh])"
    using unit_stage [of "[?y4, ?y2, ?mo, ?dd, ?hh]" "CHR ''m''" ?mi p YEAR] by simp
  have s5: "?run ([?y4, ?y2, ?mo, ?dd] @ [?hh]) =
              (if Contains p ''HH'' then HOUR else ?run [?y4, ?y2, ?mo, ?dd])"
    using unit_stage [of "[?y4, ?y2, ?mo, ?dd]" "CHR ''H''" ?hh p YEAR] by simp
  have s4: "?run ([?y4, ?y2, ?mo] @ [?dd]) =
              (if Contains p ''DD'' then DAY else ?run [?y4, ?y2, ?mo])"
    using unit_stage [of "[?y4, ?y2, ?mo]" "CHR ''D''" ?dd p YEAR] by simp
  have s3: "?run ([?y4, ?y2] @ [?mo]) =
              (if Contains p ''MM'' then MONTH else ?run [?y4, ?y2])"
    using unit_stage [of "[?y4, ?y2]" "CHR ''M''" ?mo p YEAR] by simp
  have s2: "?run [?y4, ?y2] = YEAR"
    using foldl_applyMapping_year [of "[?y4, ?y2]" p] by simp
  have "timeUnitMappings = [?y4, ?y2, ?mo, ?dd, ?hh, ?mi] @ [?ss]"
    by (simp add: timeUnitMappings_def)
  then have "?run timeUnitMappings = ?run ([?y4, ?y2, ?mo, ?dd, ?hh, ?mi] @ [?ss])" by simp
  also have "\<dots> = (if Contains p ''SS'' then SECOND else ?run ([?y4, ?y2, ?mo, ?dd, ?hh] @ [?mi]))"
    using s7 by simp
  also have "\<dots> = (if Contains p ''SS'' then SECOND
                   else if Contains p ''mm'' then MINUTE
                   else ?run ([?y4, ?y2, ?mo, ?dd] @ [?hh]))"
    using s6 by simp
  also have "\<dots> = (if Contains p ''SS'' then SECOND
                   else if Contains p ''mm'' then MINUTE
                   else if Contains p ''HH'' then HOUR
                   else ?run ([?y4, ?y2, ?mo] @ [?dd]))"
    using s5 by simp
  also have "\<dots> = (if Contains p ''SS'' then SECOND
                   else if Contains p ''mm'' then MINUTE
                   else if Contains p ''HH'' then HOUR
                   else if Contains p ''DD'' then DAY
                   else ?run ([?y4, ?y2] @ [?mo]))"
    using s4 by simp
  also have "\<dots> = (if Contains p ''SS'' then SECOND
                   else if Contains p ''mm'' then MINUTE
                   else if Contains p ''HH'' then HOUR
                   else if Contains p ''DD'' then DAY
                   else if Contains p ''MM'' then MONTH
                   else YEAR)"
    using s3 s2 by simp
  finally show ?thesis .
qed

text \<open>The last matched entry of the table is the smallest token present.\<close>

lemma smallestTokenUnit_chain:
  "smallestTokenUnit p =
     (if Contains p ''SS'' then SECOND
      else if Contains p ''mm'' then MINUTE
      else if Contains p ''HH'' then HOUR
      else if Contains p ''DD'' then DAY
      else if Contains p ''MM'' then MONTH
      else YEAR)"
  by (simp add: smallestTokenUnit_def timeUnitMappings_def)

lemma smallestTokenUnit_range: "smallestTokenUnit p \<in> {SECOND, MINUTE, HOUR, DAY, MONTH, YEAR}"
  by (simp add: smallestTokenUnit_chain)

subsection \<open>A pattern with a token is converted\<close>

lemma tokenLetters_append: "tokenLetters (a @ b) = tokenLetters a + tokenLetters b"
  by (simp add: tokenLetters_def)

lemma tokenLetters_Cons: "tokenLetters (x # xs) = tokenLetters [x] + tokenLetters xs"
  by (simp add: tokenLetters_def)

lemma prefix_split: "prefix old s \<Longrightarrow> s = old @ drop (length old) s"
  by (auto simp: prefix_def)

lemma ReplaceAll_letters_le:
  assumes "tokenLetters new = 0"
  shows "tokenLetters (ReplaceAll s old new) \<le> tokenLetters s"
  using assms
proof (induction s old new rule: ReplaceAll.induct)
  case (1 old new)
  show ?case by simp
next
  case (2 x xs old new)
  show ?case
  proof (cases "old \<noteq> [] \<and> prefix old (x # xs)")
    case True
    have "tokenLetters (x # xs) = tokenLetters old + tokenLetters (drop (length old) (x # xs))"
      using prefix_split [of old "x # xs"] True tokenLetters_append [of old] by metis
    moreover have "tokenLetters (ReplaceAll (x # xs) old new)
                     = tokenLetters (ReplaceAll (drop (length old) (x # xs)) old new)"
      using True "2.prems" by (simp add: tokenLetters_append)
    ultimately show ?thesis using "2.IH"(1) [OF True "2.prems"] by simp
  next
    case False
    have "tokenLetters (ReplaceAll (x # xs) old new)
            = tokenLetters [x] + tokenLetters (ReplaceAll xs old new)"
      using False tokenLetters_Cons [of x "ReplaceAll xs old new"] by auto
    then show ?thesis
      using "2.IH"(2) [OF False "2.prems"] tokenLetters_Cons [of x xs] by simp
  qed
qed

lemma ReplaceAll_letters_less:
  assumes "tokenLetters new = 0" and "0 < tokenLetters old" and "Contains s old"
  shows "tokenLetters (ReplaceAll s old new) < tokenLetters s"
  using assms
proof (induction s old new rule: ReplaceAll.induct)
  case (1 old new)
  then show ?case by (simp add: tokenLetters_def)
next
  case (2 x xs old new)
  from "2.prems"(2) have ne: "old \<noteq> []" by (auto simp: tokenLetters_def)
  show ?case
  proof (cases "prefix old (x # xs)")
    case True
    have "tokenLetters (x # xs) = tokenLetters old + tokenLetters (drop (length old) (x # xs))"
      using prefix_split [OF True] tokenLetters_append [of old] by metis
    moreover have "tokenLetters (ReplaceAll (x # xs) old new)
                     = tokenLetters (ReplaceAll (drop (length old) (x # xs)) old new)"
      using True ne "2.prems"(1) by (simp add: tokenLetters_append)
    ultimately show ?thesis
      using ReplaceAll_letters_le [OF "2.prems"(1), of "drop (length old) (x # xs)" old]
        "2.prems"(2) by simp
  next
    case False
    with "2.prems"(3) have c: "Contains xs old" by simp
    from False have f: "\<not> (old \<noteq> [] \<and> prefix old (x # xs))" by simp
    have "tokenLetters (ReplaceAll (x # xs) old new)
            = tokenLetters [x] + tokenLetters (ReplaceAll xs old new)"
      using False tokenLetters_Cons [of x "ReplaceAll xs old new"] by auto
    then show ?thesis
      using "2.IH"(2) [OF f "2.prems"(1,2) c] tokenLetters_Cons [of x xs] by simp
  qed
qed

lemma applyMapping_letters_le:
  assumes "tokenLetters (goFormat m) = 0"
  shows "tokenLetters (fst (applyMapping st m)) \<le> tokenLetters (fst st)"
  by (cases st) (simp add: applyMapping_def ReplaceAll_letters_le [OF assms])

lemma foldl_applyMapping_letters_le:
  assumes "\<forall>m \<in> set ms. tokenLetters (goFormat m) = 0"
  shows "tokenLetters (fst (foldl applyMapping st ms)) \<le> tokenLetters (fst st)"
  using assms
proof (induction ms arbitrary: st)
  case Nil
  show ?case by simp
next
  case (Cons m ms)
  have "tokenLetters (fst (foldl applyMapping (applyMapping st m) ms))
          \<le> tokenLetters (fst (applyMapping st m))"
    using Cons.IH [of "applyMapping st m"] Cons.prems by simp
  also have "\<dots> \<le> tokenLetters (fst st)"
    using applyMapping_letters_le [of m st] Cons.prems by simp
  finally show ?case by simp
qed

lemma foldl_applyMapping_letters_less:
  assumes "\<forall>m \<in> set ms. tokenLetters (goFormat m) = 0 \<and> 0 < tokenLetters (input m)"
    and "\<exists>m \<in> set ms. Contains (fst st) (input m)"
  shows "tokenLetters (fst (foldl applyMapping st ms)) < tokenLetters (fst st)"
  using assms
proof (induction ms arbitrary: st)
  case Nil
  then show ?case by simp
next
  case (Cons m ms)
  have zero: "\<forall>m \<in> set ms. tokenLetters (goFormat m) = 0" using Cons.prems(1) by simp
  show ?case
  proof (cases "Contains (fst st) (input m)")
    case True
    have "tokenLetters (fst (applyMapping st m)) < tokenLetters (fst st)"
      using True Cons.prems(1) ReplaceAll_letters_less [of "goFormat m" "input m" "fst st"]
      by (cases st) (simp add: applyMapping_def)
    moreover have "tokenLetters (fst (foldl applyMapping (applyMapping st m) ms))
                     \<le> tokenLetters (fst (applyMapping st m))"
      using foldl_applyMapping_letters_le [OF zero] .
    ultimately show ?thesis by simp
  next
    case False
    then have same: "applyMapping st m = st" by (cases st) (simp add: applyMapping_def)
    from False Cons.prems(2) have "\<exists>m \<in> set ms. Contains (fst st) (input m)" by auto
    with Cons.IH [of st] Cons.prems(1) same show ?thesis by simp
  qed
qed

lemma convert_changes_pattern:
  assumes "\<exists>m \<in> set timeUnitMappings. Contains p (input m)"
  shows "fst (foldl applyMapping (p, YEAR) timeUnitMappings) \<noteq> p"
proof -
  have "\<forall>m \<in> set timeUnitMappings. tokenLetters (goFormat m) = 0 \<and> 0 < tokenLetters (input m)"
    by (simp add: timeUnitMappings_def tokenLetters_def)
  from foldl_applyMapping_letters_less [OF this, of "(p, YEAR)"] assms
  have "tokenLetters (fst (foldl applyMapping (p, YEAR) timeUnitMappings)) < tokenLetters p"
    by simp
  then show ?thesis by auto
qed

lemma convert_pattern_with_token:
  assumes "\<exists>m \<in> set timeUnitMappings. Contains p (input m)"
  shows "convertPatternToGoTimeFormat p =
           Inr (fst (foldl applyMapping (p, YEAR) timeUnitMappings), smallestTokenUnit p)"
proof -
  obtain formatted u where r: "foldl applyMapping (p, YEAR) timeUnitMappings = (formatted, u)"
    by (cases "foldl applyMapping (p, YEAR) timeUnitMappings")
  have "snd (foldl applyMapping (p, YEAR) timeUnitMappings) = smallestTokenUnit p"
    unfolding convert_unit_chain smallestTokenUnit_chain ..
  with r have u: "u = smallestTokenUnit p" by simp
  from convert_changes_pattern [OF assms] r have "formatted \<noteq> p" by simp
  with r u show ?thesis by (simp add: convertPatternToGoTimeFormat_def)
qed

subsection \<open>The instants\<close>

lemma truncate_then_add:
  fixes n d z :: int
  assumes "d dvd z"
  shows "n - (n + z) mod d + d = (n div d + 1) * d"
proof -
  from assms obtain k where "z = d * k" by (auto simp: dvd_def)
  then have "(n + z) mod d = n mod d" by simp
  moreover have "n - n mod d = n div d * d" by (simp add: minus_mod_eq_div_mult)
  ultimately show ?thesis by (simp add: algebra_simps)
qed

lemma Truncate_Add_nextWhole:
  assumes "d \<in> {Second, Minute, Hour}"
  shows "Add (Truncate now d) d = nextWhole d now"
proof -
  from assms have pos: "0 < d" and dvd: "d dvd 62135596800 * 1000000000"
    by (auto simp: Second_def Minute_def Hour_def)
  from truncate_then_add [OF dvd, of "unixNano now"] pos show ?thesis
    by (simp add: Truncate_def Add_def nextWhole_def)
qed

text \<open>\<open>nextWhole\<close> is the first multiple of the duration that lies after now.\<close>

lemma nextWhole_first:
  assumes "0 < d"
  shows "unixNano now < unixNano (nextWhole d now)"
    and "unixNano (nextWhole d now) \<le> unixNano now + d"
    and "d dvd unixNano (nextWhole d now)"
    and "\<And>t. unixNano now < t \<Longrightarrow> d dvd t \<Longrightarrow> unixNano (nextWhole d now) \<le> t"
proof -
  let ?n = "unixNano now"
  have eq: "unixNano (nextWhole d now) = ?n - ?n mod d + d"
    by (simp add: nextWhole_def minus_mod_eq_div_mult algebra_simps)
  have m: "0 \<le> ?n mod d" "?n mod d < d" using assms by simp_all
  show "?n < unixNano (nextWhole d now)" unfolding eq using m by linarith
  show "unixNano (nextWhole d now) \<le> ?n + d" unfolding eq using m by linarith
  show "d dvd unixNano (nextWhole d now)" by (simp add: nextWhole_def)
  fix t assume lt: "?n < t" and "d dvd t"
  then obtain k where t: "t = d * k" by (auto simp: dvd_def)
  have "?n div d < k"
  proof (rule ccontr)
    assume "\<not> ?n div d < k"
    then have "k \<le> ?n div d" by simp
    then have "d * k \<le> d * (?n div d)" using assms by (simp add: mult_left_mono)
    also have "\<dots> = ?n - ?n mod d" by (simp add: minus_mod_eq_mult_div)
    also have "\<dots> \<le> ?n" using m by linarith
    finally show False using lt t by simp
  qed
  then have "?n div d + 1 \<le> k" by simp
  then have "(?n div d + 1) * d \<le> k * d" using assms by (simp add: mult_right_mono)
  then show "unixNano (nextWhole d now) \<le> t" using t by (simp add: nextWhole_def mult.commute)
qed

text \<open>
  Where the offset of the zone never changes, 24 hours after the start of a day is the
  start of the next day.
\<close>

lemma lookup_fixed: "transitions l = [] \<Longrightarrow> fst (lookup l sec) = baseOffset l"
  by (simp add: lookup_def)

lemma Date_fixed:
  assumes "transitions l = []"
  shows "Date year month day hour minute sec nsec l =
           \<lparr>unixNano = (daysFromCivil year month day * 86400 + hour * 3600 + minute * 60 + sec
                         - baseOffset l) * 1000000000 + nsec,
            location = l\<rparr>"
  using assms by (simp add: Date_def lookup_def Let_def)

lemma daysFromCivil_next_day:
  "daysFromCivil year month (day + 1) = daysFromCivil year month day + 1"
  by (simp add: daysFromCivil_def Let_def)

lemma day_plus_24h_fixed_offset:
  assumes "transitions (location now) = []"
  shows "Add (startOfLocalDay now) (24 * Hour) = nextLocalMidnight now"
proof -
  obtain y m d where date: "Time_Date now = (y, m, d)" by (cases "Time_Date now")
  show ?thesis
    by (simp add: startOfLocalDay_def nextLocalMidnight_def date Date_fixed [OF assms]
        daysFromCivil_next_day Add_def Hour_def Minute_def Second_def)
qed

lemma calculateNextRollover_table:
  assumes "u \<in> {SECOND, MINUTE, HOUR, DAY, MONTH, YEAR}"
  shows "calculateNextRollover u now = Inr (rolloverInstant u now)"
proof -
  obtain y m d where date: "Time_Date now = (y, m, d)" by (cases "Time_Date now")
  have w: "Add (Truncate now Second) Second = nextWhole Second now"
    "Add (Truncate now Minute) Minute = nextWhole Minute now"
    "Add (Truncate now Hour) Hour = nextWhole Hour now"
    by (simp_all add: Truncate_Add_nextWhole)
  from assms consider "u = SECOND" | "u = MINUTE" | "u = HOUR" | "u = DAY" | "u = MONTH"
    | "u = YEAR" by auto
  then show ?thesis
  proof cases
    case 1
    then show ?thesis by (simp add: calculateNextRollover_def rolloverInstant_def w)
  next
    case 2
    then show ?thesis
      by (simp add: calculateNextRollover_def rolloverInstant_def w SECOND_def MINUTE_def)
  next
    case 3
    then show ?thesis
      by (simp add: calculateNextRollover_def rolloverInstant_def w SECOND_def MINUTE_def
          HOUR_def)
  next
    case 4
    then show ?thesis
      by (simp add: calculateNextRollover_def rolloverInstant_def startOfLocalDay_def date
          SECOND_def MINUTE_def HOUR_def DAY_def)
  next
    case 5
    then show ?thesis
      by (simp add: calculateNextRollover_def rolloverInstant_def firstOfNextMonth_def date
          SECOND_def MINUTE_def HOUR_def DAY_def MONTH_def)
  next
    case 6
    then show ?thesis
      by (simp add: calculateNextRollover_def rolloverInstant_def firstOfNextYear_def date
          SECOND_def MINUTE_def HOUR_def DAY_def MONTH_def YEAR_def)
  qed
qed

text \<open>
  The cadence as the code computes it. For a pattern in which at least one token
  occurs, the conversion succeeds and the unit it returns is that of the last entry of
  the table (\<open>YYYY, YY, MM, DD, HH, mm, SS\<close>) whose token occurs in the pattern, which
  is the smallest token present. The next rollover computed for that unit is: for
  \<open>SS\<close>, \<open>mm\<close>, \<open>HH\<close> the first whole second, minute, hour of absolute time after now;
  for \<open>DD\<close> the start of the current local day plus 24 hours, which is the next local
  midnight where the zone's offset never changes; for \<open>MM\<close> the first of next month
  and for \<open>YY\<close>, \<open>YYYY\<close> January 1 of next year, at 00:00 local time.
\<close>

theorem rollover_cadence:
  assumes "\<exists>m \<in> set timeUnitMappings. Contains pattern (input m)"
  shows "(\<exists>formatted.
            convertPatternToGoTimeFormat pattern = Inr (formatted, smallestTokenUnit pattern)) \<and>
         smallestTokenUnit pattern =
           (if Contains pattern ''SS'' then SECOND
            else if Contains pattern ''mm'' then MINUTE
            else if Contains pattern ''HH'' then HOUR
            else if Contains pattern ''DD'' then DAY
            else if Contains pattern ''MM'' then MONTH
            else YEAR) \<and>
         calculateNextRollover (smallestTokenUnit pattern) now
           = Inr (rolloverInstant (smallestTokenUnit pattern) now) \<and>
         (transitions (location now) = [] \<longrightarrow>
            rolloverInstant DAY now = nextLocalMidnight now)"
proof -
  have "\<exists>formatted.
          convertPatternToGoTimeFormat pattern = Inr (formatted, smallestTokenUnit pattern)"
    using convert_pattern_with_token [OF assms] by blast
  moreover have "calculateNextRollover (smallestTokenUnit pattern) now
                   = Inr (rolloverInstant (smallestTokenUnit pattern) now)"
    using calculateNextRollover_table [OF smallestTokenUnit_range] .
  moreover have "transitions (location now) = [] \<longrightarrow>
                   rolloverInstant DAY now = nextLocalMidnight now"
    using day_plus_24h_fixed_offset [of now]
    by (simp add: rolloverInstant_def SECOND_def MINUTE_def HOUR_def DAY_def)
  ultimately show ?thesis using smallestTokenUnit_chain [of pattern] by blast
qed

lemma hourly_pattern_has_token:
  "\<exists>m \<in> set timeUnitMappings. Contains ''YYYY-MM-DD-HH'' (input m)"
  by (simp add: timeUnitMappings_def)

theorem rollover_cadence_witness:
  "convertPatternToGoTimeFormat ''YYYY-MM-DD-HH'' = Inr (''2006-01-02-15'', HOUR) \<and>
   smallestTokenUnit ''YYYY-MM-DD-HH'' = HOUR \<and>
   calculateNextRollover HOUR utcAfternoon
     = Inr \<lparr>unixNano = 1710082800000000000, location = utc\<rparr> \<and>
   rolloverInstant DAY utcAfternoon = nextLocalMidnight utcAfternoon"
proof -
  have u: "smallestTokenUnit ''YYYY-MM-DD-HH'' = HOUR" by code_simp
  have c: "convertPatternToGoTimeFormat ''YYYY-MM-DD-HH'' = Inr (''2006-01-02-15'', HOUR)"
    by code_simp
  have r: "rolloverInstant HOUR utcAfternoon = \<lparr>unixNano = 1710082800000000000, location = utc\<rparr>"
    by code_simp
  have t: "transitions (location utcAfternoon) = []" by (simp add: utcAfternoon_def utc_def)
  from rollover_cadence [OF hourly_pattern_has_token, of utcAfternoon] u c r t
  show ?thesis by simp
qed

text \<open>
  C4. For a daily pattern the instant computed is the start of the current local day
  plus 24 hours, and that is not the next local midnight on a day on which the offset
  of the zone changes. The pattern \<open>YYYY-MM-DD\<close> selects the daily cadence; at noon in
  New York on 2024-03-10 the instant computed is 01:00 local time on 2024-03-11, one
  hour after the next local midnight; at 23:30 there on 2024-11-03 it is 23:00 of the
  same evening, half an hour before now.
\<close>

theorem daily_rollover_misses_midnight:
  "convertPatternToGoTimeFormat ''YYYY-MM-DD'' = Inr (''2006-01-02'', DAY) \<and>
   calculateNextRollover DAY newYorkNoon
     = Inr \<lparr>unixNano = 1710133200000000000, location = newYork\<rparr> \<and>
   nextLocalMidnight newYorkNoon = \<lparr>unixNano = 1710129600000000000, location = newYork\<rparr> \<and>
   localSeconds \<lparr>unixNano = 1710133200000000000, location = newYork\<rparr> mod 86400 = 3600 \<and>
   \<not> isLocalMidnight \<lparr>unixNano = 1710133200000000000, location = newYork\<rparr> \<and>
   calculateNextRollover DAY newYorkLateEvening
     = Inr \<lparr>unixNano = 1730692800000000000, location = newYork\<rparr> \<and>
   unixNano newYorkLateEvening = 1730694600000000000 \<and>
   nextLocalMidnight newYorkLateEvening
     = \<lparr>unixNano = 1730696400000000000, location = newYork\<rparr>"
  by code_simp

end
